theory Spec2Isabelle
  imports Main
begin

section \<open>Python values\<close>

text \<open>
  A Python \<open>str\<close> is a sequence of Unicode code points: \<open>len\<close>, slicing and
  iteration all count code points, so a string is a list of code point numbers.
  Tokens of the tokenizer are integers as well. Python's \<open>int\<close> is unbounded: \<open>int\<close>.
\<close>

type_synonym codepoint = nat
type_synonym pystr = "codepoint list"
type_synonym token = nat
type_synonym embedding = "int list"

definition py :: "string \<Rightarrow> pystr" where
  "py s = map of_char s"

text \<open>An exception is kept as the text \<open>str(e)\<close> gives for it.\<close>

datatype exn = Exception pystr

datatype 'a result = Returns 'a | Raises exn

text \<open>\<open>sub in s\<close> on strings: \<open>sub\<close> occurs in \<open>s\<close> as a contiguous run.\<close>

fun startswith :: "pystr \<Rightarrow> pystr \<Rightarrow> bool" where
  "startswith s [] = True"
| "startswith [] (c # sub) = False"
| "startswith (d # s) (c # sub) = (d = c \<and> startswith s sub)"

fun str_in :: "pystr \<Rightarrow> pystr \<Rightarrow> bool" where
  "str_in sub [] = (sub = [])"
| "str_in sub (d # s) = (startswith (d # s) sub \<or> str_in sub s)"

text \<open>
  \<open>str.strip()\<close> removes leading and trailing white space, the code points for which
  \<open>str.isspace\<close> holds.
\<close>

definition isspace :: "codepoint \<Rightarrow> bool" where
  "isspace c \<longleftrightarrow>
     (9 \<le> c \<and> c \<le> 13) \<or> (28 \<le> c \<and> c \<le> 32) \<or> c = 133 \<or> c = 160 \<or> c = 5760 \<or>
     (8192 \<le> c \<and> c \<le> 8202) \<or> c = 8232 \<or> c = 8233 \<or> c = 8239 \<or> c = 8287 \<or> c = 12288"

definition strip :: "pystr \<Rightarrow> pystr" where
  "strip s = rev (dropWhile isspace (rev (dropWhile isspace s)))"

text \<open>
  \<open>xs[a:b]\<close>: a negative bound counts from the end, and both bounds are clamped to the
  list.
\<close>

definition slice_bound :: "nat \<Rightarrow> int \<Rightarrow> nat" where
  "slice_bound n i = (if i < 0 then nat (max (i + int n) 0) else min (nat i) n)"

definition py_slice :: "'a list \<Rightarrow> int \<Rightarrow> int \<Rightarrow> 'a list" where
  "py_slice xs a b =
     (let lo = slice_bound (length xs) a; hi = slice_bound (length xs) b
      in take (hi - lo) (drop lo xs))"

text \<open>
  \<open>f"{n:03d}"\<close>: the decimal digits of \<open>n\<close>, filled with zeros on the left up to a
  width of three, the sign (which counts for the width) in front of the zeros.
\<close>

fun decimal :: "nat \<Rightarrow> pystr" where
  "decimal n = (if n < 10 then [48 + n] else decimal (n div 10) @ [48 + n mod 10])"

declare decimal.simps [simp del]

definition format_03d :: "int \<Rightarrow> pystr" where
  "format_03d n =
     (let ds = decimal (nat \<bar>n\<bar>)
      in if n < 0 then 45 # replicate (2 - length ds) 48 @ ds
         else replicate (3 - length ds) 48 @ ds)"

section \<open>What the program is given\<close>

text \<open>
  The libraries and services the program calls are parameters of the model:
  \<^item> the tokenizer (\<open>tiktoken\<close>): \<open>encode(text)\<close>, which raises on text that holds a
    special token, \<open>encode(text, disallowed_special=())\<close>, and \<open>decode\<close>;
  \<^item> \<open>hashlib.md5(path.encode("utf-8")).hexdigest()\<close>, \<open>os.path.basename\<close> and
    \<open>os.path.splitext\<close> (which depend on the platform), \<open>str.isalnum\<close> and
    \<open>str.lower\<close> (which depend on the Unicode tables);
  \<^item> the embedding service and the vector index: the outcome of a call may depend on
    how many calls came before it, so each takes the number of the call.
  A call of \<open>client.embeddings.create\<close> either gives the embedding that
  \<open>response.data[0].embedding\<close> reads, or the \<open>try\<close> block raises an exception
  with some text; \<open>index.upsert\<close> returns or raises; \<open>index.fetch\<close> gives the
  identifiers under \<open>'vectors'\<close> of its response, or raises.
\<close>

datatype create_outcome = Created embedding | CreateRaised pystr

datatype fetch_outcome = Fetched "pystr list" | FetchRaised pystr

record vector =
  vector_id :: pystr
  vector_values :: embedding
  meta_source :: pystr
  meta_text :: pystr
  meta_chunk :: "(int \<times> int) option"

record env =
  tokenizer_encode :: "pystr \<Rightarrow> exn + token list"
  tokenizer_encode_ordinary :: "pystr \<Rightarrow> exn + token list"
  tokenizer_decode :: "token list \<Rightarrow> pystr"
  md5_hexdigest :: "pystr \<Rightarrow> pystr"
  os_path_basename :: "pystr \<Rightarrow> pystr"
  os_path_splitext :: "pystr \<Rightarrow> pystr \<times> pystr"
  str_isalnum :: "codepoint \<Rightarrow> bool"
  str_lower :: "pystr \<Rightarrow> pystr"
  embeddings_create :: "nat \<Rightarrow> pystr \<Rightarrow> create_outcome"
  index_upsert :: "nat \<Rightarrow> vector list \<Rightarrow> exn option"
  index_fetch :: "nat \<Rightarrow> pystr list \<Rightarrow> fetch_outcome"

section \<open>Identifier derivation\<close>

text \<open>\<open>TextUploader.generate_file_id\<close> (upload.py).\<close>

definition generate_file_id :: "env \<Rightarrow> pystr \<Rightarrow> int \<Rightarrow> pystr" where
  "generate_file_id E file_path chunk_num =
     (let file_hash = take 8 (md5_hexdigest E file_path);
          filename = fst (os_path_splitext E (os_path_basename E file_path));
          filename = take 50 (filter (\<lambda>c. str_isalnum E c \<or> c \<in> {45, 95}) filename)
      in if chunk_num > 0
         then file_hash @ py ''_'' @ filename @ py ''_chunk_'' @ format_03d chunk_num
         else file_hash @ py ''_'' @ filename)"

text \<open>\<open>PineconeValidator.generate_file_id\<close> (validate\_pinecone.py).\<close>

definition validator_generate_file_id :: "env \<Rightarrow> pystr \<Rightarrow> int \<Rightarrow> pystr" where
  "validator_generate_file_id E file_path chunk_num =
     (let file_hash = take 8 (md5_hexdigest E file_path);
          filename = fst (os_path_splitext E (os_path_basename E file_path));
          filename = take 50 (filter (\<lambda>c. str_isalnum E c \<or> c \<in> {45, 95}) filename)
      in if chunk_num > 0
         then file_hash @ py ''_'' @ filename @ py ''_chunk_'' @ format_03d chunk_num
         else file_hash @ py ''_'' @ filename)"

section \<open>Identifier derivation: what the specification says\<close>

text \<open>
  The specification's words for the parts of an identifier: the first eight characters
  of the hexadecimal MD5 digest of the path; the file name without its extension, with
  every character removed that is not alphanumeric, \<open>-\<close> or \<open>_\<close>, cut to 50
  characters; and the chunk index written with three digits, zeros in front (a number
  of four or more digits is written as it is).
\<close>

definition spec_hash8 :: "env \<Rightarrow> pystr \<Rightarrow> pystr" where
  "spec_hash8 E path = take 8 (md5_hexdigest E path)"

definition spec_stem :: "env \<Rightarrow> pystr \<Rightarrow> pystr" where
  "spec_stem E path =
     take 50 [c \<leftarrow> fst (os_path_splitext E (os_path_basename E path)).
                str_isalnum E c \<or> c = 45 \<or> c = 95]"

definition zero_padded3 :: "nat \<Rightarrow> pystr" where
  "zero_padded3 k =
     (if k < 1000 then [48 + k div 100, 48 + k div 10 mod 10, 48 + k mod 10]
      else decimal k)"

section \<open>Token counting and chunking\<close>

text \<open>
  The module constants of upload.py; validate\_pinecone.py writes the same two numbers
  as the defaults of its chunker.
\<close>

definition MAX_TOKENS :: int where
  "MAX_TOKENS = 6000"

definition OVERLAP_TOKENS :: int where
  "OVERLAP_TOKENS = 100"

definition BATCH_SIZE :: nat where
  "BATCH_SIZE = 100"

text \<open>
  \<open>TextUploader.count_tokens\<close>: the number of tokens, or a third of the number of
  characters when the tokenizer raises.
\<close>

definition count_tokens :: "env \<Rightarrow> pystr \<Rightarrow> int" where
  "count_tokens E text =
     (case tokenizer_encode_ordinary E text of
        Inr tokens \<Rightarrow> int (length tokens)
      | Inl e \<Rightarrow> int (length text) div 3)"

text \<open>
  The \<open>while\<close> loop of \<open>chunk_text_by_tokens\<close>, with its variables \<open>start\<close> and
  \<open>chunks\<close>. The result \<open>None\<close> stands for a loop that runs forever, so that the
  loop ends is a theorem about the definition and not part of it.
\<close>

partial_function (option)
  chunk_loop :: "env \<Rightarrow> token list \<Rightarrow> int \<Rightarrow> int \<Rightarrow> int \<Rightarrow> pystr list \<Rightarrow> pystr list option"
where
  "chunk_loop E tokens max_tokens overlap_tokens start chunks =
     (if start < int (length tokens) then
        let stop = min (start + max_tokens) (int (length tokens));
            chunk_tokens = py_slice tokens start stop;
            chunk_text = tokenizer_decode E chunk_tokens;
            chunks = (if strip chunk_text \<noteq> [] then chunks @ [strip chunk_text] else chunks);
            step = max_tokens - overlap_tokens;
            start = start + step
        in if step \<le> 0 then Some chunks
           else chunk_loop E tokens max_tokens overlap_tokens start chunks
      else Some chunks)"

declare chunk_loop.simps [code]

text \<open>
  \<open>TextUploader.chunk_text_by_tokens\<close>; \<open>PineconeValidator.chunk_text_by_tokens\<close>
  repeats it statement for statement. \<open>tokenizer.encode(text)\<close> may raise, and the
  exception leaves the function.
\<close>

definition chunk_text_by_tokens ::
  "env \<Rightarrow> pystr \<Rightarrow> int \<Rightarrow> int \<Rightarrow> pystr list result option" where
  "chunk_text_by_tokens E text max_tokens overlap_tokens =
     (case tokenizer_encode E text of
        Inl e \<Rightarrow> Some (Raises e)
      | Inr tokens \<Rightarrow>
          if int (length tokens) \<le> max_tokens then Some (Returns [text])
          else map_option Returns (chunk_loop E tokens max_tokens overlap_tokens 0 []))"

text \<open>
  Names for what one pass of the loop computes: the tokens \<open>tokens[start:end]\<close> of
  the window that begins at \<open>start\<close>, the chunk the pass appends (none when the
  decoded window is blank), and the values \<open>start\<close> takes while it is below the
  number of tokens.
\<close>

definition token_window :: "token list \<Rightarrow> int \<Rightarrow> int \<Rightarrow> token list" where
  "token_window tokens max_tokens start =
     py_slice tokens start (min (start + max_tokens) (int (length tokens)))"

definition window_chunk :: "env \<Rightarrow> token list \<Rightarrow> int \<Rightarrow> int \<Rightarrow> pystr list" where
  "window_chunk E tokens max_tokens start =
     (let chunk_text = tokenizer_decode E (token_window tokens max_tokens start)
      in if strip chunk_text \<noteq> [] then [strip chunk_text] else [])"

definition window_starts :: "nat \<Rightarrow> int \<Rightarrow> int \<Rightarrow> int list" where
  "window_starts n step start =
     map (\<lambda>k. start + int k * step) [0 ..< nat ((int n - start + step - 1) div step)]"

section \<open>Embedding requests\<close>

text \<open>
  What the program does to the outside is kept as a trace: the embedding requests with
  the text they carry, the waits, and the batches sent to the index. The state also
  counts the calls made, and holds the variables \<open>vectors\<close> and
  \<open>successful_chunks\<close> of \<open>upload_text_file\<close>.
\<close>

datatype event =
  EmbedRequest pystr
| Sleep int
| Upserted "vector list"
| UpsertFailed "vector list" exn

record upload_state =
  embed_calls :: nat
  upsert_calls :: nat
  trace :: "event list"
  vectors :: "vector list"
  successful_chunks :: nat

definition max_retries :: int where
  "max_retries = 3"

definition retry_delay :: int where
  "retry_delay = 5"

definition embeddings_request :: "env \<Rightarrow> pystr \<Rightarrow> upload_state \<Rightarrow> create_outcome \<times> upload_state" where
  "embeddings_request E text st =
     (embeddings_create E (embed_calls st) text,
      st\<lparr>embed_calls := embed_calls st + 1, trace := trace st @ [EmbedRequest text]\<rparr>)"

definition time_sleep :: "int \<Rightarrow> upload_state \<Rightarrow> upload_state" where
  "time_sleep seconds st = st\<lparr>trace := trace st @ [Sleep seconds]\<rparr>"

text \<open>
  The \<open>for attempt in range(max_retries)\<close> loop of \<open>get_embedding\<close>; the last
  equation is the \<open>return None\<close> after the loop.
\<close>

fun embedding_attempts ::
  "env \<Rightarrow> pystr \<Rightarrow> int list \<Rightarrow> upload_state \<Rightarrow> embedding option \<times> upload_state" where
  "embedding_attempts E text (attempt # rest) st =
     (case embeddings_request E text st of
        (Created emb, st) \<Rightarrow> (Some emb, st)
      | (CreateRaised e, st) \<Rightarrow>
          if str_in (py ''429'') e \<or> str_in (py ''quota'') (str_lower E e) then
            if attempt < max_retries - 1 then
              let wait_time = retry_delay * (attempt + 1)
              in embedding_attempts E text rest (time_sleep wait_time st)
            else (None, st)
          else if str_in (py ''400'') e \<or> str_in (py ''maximum context length'') e then
            (None, st)
          else (None, st))"
| "embedding_attempts E text [] st = (None, st)"

text \<open>
  \<open>TextUploader.get_embedding\<close>. The truncation calls \<open>tokenizer.encode(text)\<close>
  outside the \<open>try\<close>, so its exception leaves the function.
\<close>

definition get_embedding ::
  "env \<Rightarrow> pystr \<Rightarrow> upload_state \<Rightarrow> embedding option result \<times> upload_state" where
  "get_embedding E text st =
     (let token_count = count_tokens E text;
          truncated =
            (if token_count > 8190 then
               (case tokenizer_encode E text of
                  Inl e \<Rightarrow> Raises e
                | Inr tokens \<Rightarrow> Returns (tokenizer_decode E (take 8190 tokens)))
             else Returns text)
      in case truncated of
           Raises e \<Rightarrow> (Raises e, st)
         | Returns text \<Rightarrow>
             (case embedding_attempts E text [0 .. max_retries - 1] st of
                (emb, st) \<Rightarrow> (Returns emb, st)))"

section \<open>Uploading a file\<close>

text \<open>The identifier \<open>vid\<close> that \<open>upload_text_file\<close> gives the chunk at \<open>chunk_idx\<close>.\<close>

definition chunk_vector_id :: "env \<Rightarrow> pystr \<Rightarrow> pystr list \<Rightarrow> nat \<Rightarrow> pystr" where
  "chunk_vector_id E file_path chunks chunk_idx =
     (if length chunks > 1 then generate_file_id E file_path (int chunk_idx + 1)
      else generate_file_id E file_path 0)"

text \<open>
  \<open>self.index.upsert(vectors=vectors)\<close> inside its \<open>try\<close>: whether the call returns
  or raises, \<open>vectors\<close> is emptied.
\<close>

definition upsert_vectors :: "env \<Rightarrow> upload_state \<Rightarrow> upload_state" where
  "upsert_vectors E st =
     st\<lparr>upsert_calls := upsert_calls st + 1,
        trace := trace st @
          [case index_upsert E (upsert_calls st) (vectors st) of
             None \<Rightarrow> Upserted (vectors st)
           | Some e \<Rightarrow> UpsertFailed (vectors st) e],
        vectors := []\<rparr>"

text \<open>The \<open>for chunk_idx, chunk in enumerate(chunks)\<close> loop of \<open>upload_text_file\<close>.\<close>

fun upload_chunks ::
  "env \<Rightarrow> pystr \<Rightarrow> pystr list \<Rightarrow> (nat \<times> pystr) list \<Rightarrow> upload_state \<Rightarrow> unit result \<times> upload_state"
where
  "upload_chunks E file_path chunks [] st = (Returns (), st)"
| "upload_chunks E file_path chunks ((chunk_idx, chunk) # rest) st =
     (let chunk_tokens = count_tokens E chunk
      in if chunk_tokens = 0 then upload_chunks E file_path chunks rest st
         else if chunk_tokens > 8190 then upload_chunks E file_path chunks rest st
         else
           (case get_embedding E chunk st of
              (Raises e, st) \<Rightarrow> (Raises e, st)
            | (Returns None, st) \<Rightarrow> upload_chunks E file_path chunks rest st
            | (Returns (Some emb), st) \<Rightarrow>
                let vid = chunk_vector_id E file_path chunks chunk_idx;
                    metadata_chunk =
                      (if length chunks > 1
                       then Some (int chunk_idx + 1, int (length chunks)) else None);
                    st = st\<lparr>vectors := vectors st @
                           [\<lparr>vector_id = vid, vector_values = emb,
                             meta_source = os_path_basename E file_path,
                             meta_text = take 10000 chunk,
                             meta_chunk = metadata_chunk\<rparr>],
                           successful_chunks := successful_chunks st + 1\<rparr>;
                    st = (if length (vectors st) \<ge> BATCH_SIZE then upsert_vectors E st else st)
                in upload_chunks E file_path chunks rest st))"

text \<open>
  \<open>TextUploader.upload_text_file\<close>, given the text that \<open>extract_text_from_file\<close>
  read from the file (the empty string when it could not be read).
\<close>

definition upload_text_file ::
  "env \<Rightarrow> pystr \<Rightarrow> pystr \<Rightarrow> upload_state \<Rightarrow> (unit result \<times> upload_state) option" where
  "upload_text_file E file_path full_text st =
     (if strip full_text = [] then Some (Returns (), st)
      else
        (case chunk_text_by_tokens E full_text MAX_TOKENS OVERLAP_TOKENS of
           None \<Rightarrow> None
         | Some (Raises e) \<Rightarrow> Some (Raises e, st)
         | Some (Returns chunks) \<Rightarrow>
             (case upload_chunks E file_path chunks (enumerate 0 chunks)
                     (st\<lparr>vectors := [], successful_chunks := 0\<rparr>) of
                (Raises e, st) \<Rightarrow> Some (Raises e, st)
              | (Returns u, st) \<Rightarrow>
                  Some (Returns (), if vectors st \<noteq> [] then upsert_vectors E st else st))))"

section \<open>Validating a directory\<close>

text \<open>
  The lines \<open>validate_directory\<close> prints for a file, and its two counters.
\<close>

datatype verdict =
  NoText pystr
| Found pystr
| NotFound pystr
| ErrorFetching pystr

record validation_state =
  found_count :: nat
  not_found_count :: nat
  fetch_calls :: nat
  printed :: "verdict list"

text \<open>The list \<open>ids_to_check\<close> built for a file.\<close>

definition ids_to_check :: "env \<Rightarrow> pystr \<Rightarrow> pystr list \<Rightarrow> pystr list" where
  "ids_to_check E file_path chunks =
     (if length chunks > 1
      then map (\<lambda>i. validator_generate_file_id E file_path (int i + 1)) [0 ..< length chunks]
      else [validator_generate_file_id E file_path 0])"

text \<open>
  The body of the \<open>for\<close> loop of \<open>validate_directory\<close> for one file, given the text
  read from it. \<open>fetch_response['vectors']\<close> is kept as the list of the identifiers
  found; it counts as true when it is not empty.
\<close>

definition validate_file ::
  "env \<Rightarrow> pystr \<Rightarrow> pystr \<Rightarrow> validation_state \<Rightarrow> validation_state result option" where
  "validate_file E file_path full_text st =
     (if strip full_text = [] then
        Some (Returns (st\<lparr>printed := printed st @ [NoText (os_path_basename E file_path)]\<rparr>))
      else
        (case chunk_text_by_tokens E full_text 6000 100 of
           None \<Rightarrow> None
         | Some (Raises e) \<Rightarrow> Some (Raises e)
         | Some (Returns chunks) \<Rightarrow>
             let ids = ids_to_check E file_path chunks;
                 st' = st\<lparr>fetch_calls := fetch_calls st + 1\<rparr>
             in Some (Returns
                  (case index_fetch E (fetch_calls st) ids of
                     Fetched found \<Rightarrow>
                       if found \<noteq> [] then
                         st'\<lparr>found_count := found_count st + 1,
                             printed := printed st @ [Found (os_path_basename E file_path)]\<rparr>
                       else
                         st'\<lparr>not_found_count := not_found_count st + 1,
                             printed := printed st @ [NotFound (os_path_basename E file_path)]\<rparr>
                   | FetchRaised e \<Rightarrow>
                       st'\<lparr>not_found_count := not_found_count st + 1,
                           printed := printed st @ [ErrorFetching e]\<rparr>))))"

fun validate_files ::
  "env \<Rightarrow> (pystr \<times> pystr) list \<Rightarrow> validation_state \<Rightarrow> validation_state result option" where
  "validate_files E [] st = Some (Returns st)"
| "validate_files E ((file_path, full_text) # text_files) st =
     (case validate_file E file_path full_text st of
        None \<Rightarrow> None
      | Some (Raises e) \<Rightarrow> Some (Raises e)
      | Some (Returns st) \<Rightarrow> validate_files E text_files st)"

text \<open>
  \<open>PineconeValidator.validate_directory\<close>, given the sorted list of the \<open>.txt\<close>
  files of the directory, each with the text read from it.
\<close>

definition validate_directory ::
  "env \<Rightarrow> (pystr \<times> pystr) list \<Rightarrow> validation_state result option" where
  "validate_directory E text_files =
     validate_files E text_files
       \<lparr>found_count = 0, not_found_count = 0, fetch_calls = 0, printed = []\<rparr>"

section \<open>Overlap of consecutive chunks: what the specification says\<close>

text \<open>
  The specification's overlap property of a list of chunks: for any two consecutive
  chunks, the last \<open>overlap_tokens\<close> tokens of the first equal the first
  \<open>overlap_tokens\<close> tokens of the second.
\<close>

definition last_tokens :: "nat \<Rightarrow> token list \<Rightarrow> token list" where
  "last_tokens k tokens = drop (length tokens - k) tokens"

definition first_tokens :: "nat \<Rightarrow> token list \<Rightarrow> token list" where
  "first_tokens k tokens = take k tokens"

fun spec_overlap :: "env \<Rightarrow> nat \<Rightarrow> pystr list \<Rightarrow> bool" where
  "spec_overlap E k (c # d # chunks) =
     ((case (tokenizer_encode E c, tokenizer_encode E d) of
         (Inr a, Inr b) \<Rightarrow> last_tokens k a = first_tokens k b
       | _ \<Rightarrow> False) \<and> spec_overlap E k (d # chunks))"
| "spec_overlap E k chunks = True"

text \<open>The token windows the loop of \<open>chunk_text_by_tokens\<close> slices, in order.\<close>

definition chunk_windows :: "token list \<Rightarrow> int \<Rightarrow> int \<Rightarrow> token list list" where
  "chunk_windows tokens max_tokens overlap_tokens =
     map (token_window tokens max_tokens)
       (window_starts (length tokens) (max_tokens - overlap_tokens) 0)"

section \<open>Reading a trace\<close>

text \<open>
  The texts of the embedding requests of a trace, the waits of a trace, and the vectors
  of the batches sent to the index (whether the index took them or not), in order.
\<close>

fun requests :: "event list \<Rightarrow> pystr list" where
  "requests [] = []"
| "requests (EmbedRequest text # evs) = text # requests evs"
| "requests (ev # evs) = requests evs"

fun sleeps :: "event list \<Rightarrow> int list" where
  "sleeps [] = []"
| "sleeps (Sleep seconds # evs) = seconds # sleeps evs"
| "sleeps (ev # evs) = sleeps evs"

fun sent_vectors :: "event list \<Rightarrow> vector list" where
  "sent_vectors [] = []"
| "sent_vectors (Upserted vs # evs) = vs @ sent_vectors evs"
| "sent_vectors (UpsertFailed vs e # evs) = vs @ sent_vectors evs"
| "sent_vectors (ev # evs) = sent_vectors evs"

text \<open>
  A vector as \<open>upload_text_file\<close> builds it for the chunk at index \<open>i\<close> of
  \<open>chunks\<close>.
\<close>

definition is_chunk_vector :: "env \<Rightarrow> pystr \<Rightarrow> pystr list \<Rightarrow> nat \<Rightarrow> vector \<Rightarrow> bool" where
  "is_chunk_vector E file_path chunks i v \<longleftrightarrow>
     i < length chunks \<and>
     vector_id v = chunk_vector_id E file_path chunks i \<and>
     meta_source v = os_path_basename E file_path \<and>
     meta_text v = take 10000 (chunks ! i) \<and>
     meta_chunk v = (if length chunks > 1 then Some (int i + 1, int (length chunks)) else None)"

text \<open>What the loop does to its state once a chunk has its embedding.\<close>

definition push_vector :: "env \<Rightarrow> pystr \<Rightarrow> pystr list \<Rightarrow> nat \<Rightarrow> pystr \<Rightarrow> embedding \<Rightarrow> upload_state \<Rightarrow> upload_state" where
  "push_vector E path chunks i c emb st =
     (let st2 = st\<lparr>vectors := vectors st @
                 [\<lparr>vector_id = chunk_vector_id E path chunks i, vector_values = emb,
                   meta_source = os_path_basename E path, meta_text = take 10000 c,
                   meta_chunk = (if length chunks > 1
                                 then Some (int i + 1, int (length chunks)) else None)\<rparr>],
               successful_chunks := successful_chunks st + 1\<rparr>
      in if length (vectors st2) \<ge> BATCH_SIZE then upsert_vectors E st2 else st2)"

text \<open>The state before anything was sent.\<close>

definition fresh_upload :: upload_state where
  "fresh_upload =
     \<lparr>embed_calls = 0, upsert_calls = 0, trace = [], vectors = [], successful_chunks = 0\<rparr>"

section \<open>Classes of embedding failures\<close>

text \<open>
  The two tests of the \<open>except\<close> branch of \<open>get_embedding\<close> on the text of the
  exception, and what a call of the service is worth to the caller. The branch tests
  for the rate-limit signal first: an error that carries it is a rate-limit error,
  whatever else its text holds.
\<close>

definition rate_limit_signal :: "env \<Rightarrow> pystr \<Rightarrow> bool" where
  "rate_limit_signal E e \<longleftrightarrow> str_in (py ''429'') e \<or> str_in (py ''quota'') (str_lower E e)"

definition context_length_signal :: "pystr \<Rightarrow> bool" where
  "context_length_signal e \<longleftrightarrow> str_in (py ''400'') e \<or> str_in (py ''maximum context length'') e"

fun rate_limited :: "env \<Rightarrow> create_outcome \<Rightarrow> bool" where
  "rate_limited E (CreateRaised e) = rate_limit_signal E e"
| "rate_limited E (Created emb) = False"

fun outcome_value :: "create_outcome \<Rightarrow> embedding option" where
  "outcome_value (Created emb) = Some emb"
| "outcome_value (CreateRaised e) = None"

text \<open>
  The text \<open>get_embedding\<close> sends for \<open>text\<close>: the text itself, or the decoding of
  its first 8190 tokens when it counts more than 8190; nothing when the tokenizer
  raises on it.
\<close>

definition text_to_embed :: "env \<Rightarrow> pystr \<Rightarrow> pystr result" where
  "text_to_embed E text =
     (if count_tokens E text > 8190 then
        (case tokenizer_encode E text of
           Inl e \<Rightarrow> Raises e
         | Inr tokens \<Rightarrow> Returns (tokenizer_decode E (take 8190 tokens)))
      else Returns text)"

section \<open>Reading the validator's report\<close>

text \<open>
  Whether a fetch gave at least one vector, and how many files a list of printed
  verdicts reports as found and as not found (an error while fetching is reported
  under the not-found count).
\<close>

fun fetch_found :: "fetch_outcome \<Rightarrow> bool" where
  "fetch_found (Fetched found) = (found \<noteq> [])"
| "fetch_found (FetchRaised e) = False"

fun count_found :: "verdict list \<Rightarrow> nat" where
  "count_found [] = 0"
| "count_found (Found name # vs) = Suc (count_found vs)"
| "count_found (v # vs) = count_found vs"

fun count_not_found :: "verdict list \<Rightarrow> nat" where
  "count_not_found [] = 0"
| "count_not_found (NotFound name # vs) = Suc (count_not_found vs)"
| "count_not_found (ErrorFetching e # vs) = Suc (count_not_found vs)"
| "count_not_found (v # vs) = count_not_found vs"

section \<open>The report for a list of documents\<close>

text \<open>
  What \<open>validate_directory\<close> prints for a file once its fetch has come back: found
  when the fetch gave at least one vector, not found when it gave none, the error when
  it raised.
\<close>

fun verdict_of :: "pystr \<Rightarrow> fetch_outcome \<Rightarrow> verdict" where
  "verdict_of name (Fetched found) = (if found \<noteq> [] then Found name else NotFound name)"
| "verdict_of name (FetchRaised e) = ErrorFetching e"

text \<open>
  The outcomes of the fetches for a list of documents, each a file path with its text
  and its chunks, when the first of them is fetch number \<open>k\<close>: one fetch per
  document, over the identifiers of all its chunks.
\<close>

fun fetch_outcomes ::
  "env \<Rightarrow> nat \<Rightarrow> (pystr \<times> pystr \<times> pystr list) list \<Rightarrow> (pystr \<times> fetch_outcome) list" where
  "fetch_outcomes E k [] = []"
| "fetch_outcomes E k ((file_path, full_text, chunks) # docs) =
     (os_path_basename E file_path, index_fetch E k (ids_to_check E file_path chunks)) #
     fetch_outcomes E (Suc k) docs"

section \<open>A small world to run the program in\<close>

text \<open>
  For evaluating the definitions at concrete inputs: POSIX paths, ASCII letters and
  digits, a fixed digest, an embedding service that answers every request, and an index
  that holds nothing. The tokenizer of this world has one token per code point and
  decodes a token to its code point, so that the tokens of a text can be read off the
  text: what the examples show depends on the number of tokens and on which windows
  are blank, not on how a tokenizer cuts words.
\<close>

definition posix_basename :: "pystr \<Rightarrow> pystr" where
  "posix_basename p = rev (takeWhile (\<lambda>c. c \<noteq> 47) (rev p))"

definition posix_splitext :: "pystr \<Rightarrow> pystr \<times> pystr" where
  "posix_splitext p =
     (let name = posix_basename p;
          ext = rev (takeWhile (\<lambda>c. c \<noteq> 46) (rev name));
          root = take (length name - length ext - 1) name
      in if 46 \<in> set name \<and> (\<exists>c \<in> set root. c \<noteq> 46)
         then (take (length p - length ext - 1) p, 46 # ext)
         else (p, []))"

definition ascii_isalnum :: "codepoint \<Rightarrow> bool" where
  "ascii_isalnum c \<longleftrightarrow> (48 \<le> c \<and> c \<le> 57) \<or> (65 \<le> c \<and> c \<le> 90) \<or> (97 \<le> c \<and> c \<le> 122)"

definition ascii_lower :: "pystr \<Rightarrow> pystr" where
  "ascii_lower s = map (\<lambda>c. if 65 \<le> c \<and> c \<le> 90 then c + 32 else c) s"

definition sample_env :: env where
  "sample_env =
     \<lparr> tokenizer_encode = Inr,
       tokenizer_encode_ordinary = Inr,
       tokenizer_decode = (\<lambda>tokens. tokens),
       md5_hexdigest = (\<lambda>path. py ''a1b2c3d4e5f60718293a4b5c6d7e8f90''),
       os_path_basename = posix_basename,
       os_path_splitext = posix_splitext,
       str_isalnum = ascii_isalnum,
       str_lower = ascii_lower,
       embeddings_create = (\<lambda>k text. Created [int k]),
       index_upsert = (\<lambda>k vectors. None),
       index_fetch = (\<lambda>k ids. Fetched []) \<rparr>"

text \<open>
  An embedding service that answers the first \<open>n\<close> calls with a rate-limit error,
  and one that rejects every call for its length.
\<close>

definition rate_limiting_env :: "nat \<Rightarrow> env" where
  "rate_limiting_env n =
     sample_env\<lparr>embeddings_create :=
       (\<lambda>k text. if k < n then CreateRaised (py ''Error code: 429 - Rate limit reached'')
                 else Created [int k])\<rparr>"

definition rejecting_env :: env where
  "rejecting_env =
     sample_env\<lparr>embeddings_create :=
       (\<lambda>k text. CreateRaised (py ''Error code: 400 - maximum context length is 8192 tokens''))\<rparr>"

text \<open>
  An index that holds the second chunk of \<open>/d/a.txt\<close> and nothing else, and an index
  whose first fetch fails and that holds everything after that.
\<close>

definition partial_index_env :: env where
  "partial_index_env =
     sample_env\<lparr>index_fetch :=
       (\<lambda>k ids. Fetched (filter (\<lambda>i. i = py ''a1b2c3d4_a_chunk_002'') ids))\<rparr>"

definition failing_index_env :: env where
  "failing_index_env =
     sample_env\<lparr>index_fetch :=
       (\<lambda>k ids. if k = 0 then FetchRaised (py ''Connection reset by peer'') else Fetched ids)\<rparr>"

text \<open>
  An embedding service that rejects every call for its length, with a message that
  names a number of tokens in which the digits 429 occur.
\<close>

definition context_length_message :: pystr where
  "context_length_message =
     py ''Error code: 400 - maximum context length is 8192 tokens, however you requested 8429 tokens''"

definition context_length_429_env :: env where
  "context_length_429_env =
     sample_env\<lparr>embeddings_create := (\<lambda>k text. CreateRaised context_length_message)\<rparr>"


section \<open>Identifier derivation: theorems\<close>

lemma decimal_lt_10: "k < 10 \<Longrightarrow> decimal k = [48 + k]"
  by (subst decimal.simps) simp

lemma decimal_ge_10: "10 \<le> k \<Longrightarrow> decimal k = decimal (k div 10) @ [48 + k mod 10]"
  by (subst decimal.simps) simp

lemma decimal_lt_100: "10 \<le> k \<Longrightarrow> k < 100 \<Longrightarrow> decimal k = [48 + k div 10, 48 + k mod 10]"
  by (simp add: decimal_ge_10 decimal_lt_10)

lemma decimal_lt_1000:
  assumes "100 \<le> k" "k < 1000"
  shows "decimal k = [48 + k div 100, 48 + k div 10 mod 10, 48 + k mod 10]"
proof -
  have "10 \<le> k div 10" "k div 10 < 100" using assms by auto
  then have "decimal (k div 10) = [48 + k div 10 div 10, 48 + k div 10 mod 10]"
    by (rule decimal_lt_100)
  moreover have "k div 10 div 10 = k div 100" by (simp add: div_mult2_eq)
  ultimately show ?thesis using assms by (simp add: decimal_ge_10)
qed

lemma length_decimal_pos: "0 < length (decimal k)"
  by (cases "k < 10") (simp_all add: decimal_lt_10 decimal_ge_10)

lemma length_decimal_ge_1000: 
  assumes "1000 \<le> k" 
  shows "3 < length (decimal k)"
proof -
  have a: "10 \<le> k" "10 \<le> k div 10" "10 \<le> k div 10 div 10" using assms by auto
  have "decimal k = decimal (k div 10 div 10 div 10) @ [48 + k div 10 div 10 mod 10] 
          @ [48 + k div 10 mod 10] @ [48 + k mod 10]"
    using a by (simp add: decimal_ge_10)
  then show ?thesis using length_decimal_pos [of "k div 10 div 10 div 10"] by simp
qed

lemma format_03d_pos: "0 < n \<Longrightarrow> format_03d n = zero_padded3 (nat n)"
proof -
  assume n: "0 < n"
  define k where "k = nat n"
  have k: "nat \<bar>n\<bar> = k" "\<not> n < 0" using n by (simp_all add: k_def)
  consider "k < 10" | "10 \<le> k" "k < 100" | "100 \<le> k" "k < 1000" | "1000 \<le> k" by linarith
  then have "format_03d n = zero_padded3 k"
  proof cases
    case 1 
    then show ?thesis 
      by (simp add: format_03d_def zero_padded3_def k decimal_lt_10 numeral_2_eq_2)
  next
    case 2 
    then show ?thesis by (simp add: format_03d_def zero_padded3_def k decimal_lt_100)
  next
    case 3 
    then show ?thesis by (simp add: format_03d_def zero_padded3_def k decimal_lt_1000)
  next
    case 4 
    then show ?thesis
      using length_decimal_ge_1000 [of k] by (simp add: format_03d_def zero_padded3_def k)
  qed
  then show ?thesis by (simp add: k_def)
qed

text \<open>
  C1. The identifier derivation of the upload path and the one of the validation path
  are the same function of the file path and the chunk index.
\<close>

theorem generate_file_id_upload_eq_validator:
  "generate_file_id = validator_generate_file_id"
  by (intro ext) (simp add: generate_file_id_def validator_generate_file_id_def)

text \<open>
  C7. For chunk index 0 the identifier is the 8-character hash, an underscore and the
  sanitized stem; for a positive chunk index it is followed by \<open>_chunk_\<close> and the
  index with three digits. The stem has at most 50 characters, each alphanumeric,
  \<open>-\<close> or \<open>_\<close>.
\<close>

theorem generate_file_id_format:
  "(n = 0 \<longrightarrow> generate_file_id E path n = spec_hash8 E path @ py ''_'' @ spec_stem E path) \<and>
   (0 < n \<longrightarrow> generate_file_id E path n =
      spec_hash8 E path @ py ''_'' @ spec_stem E path @ py ''_chunk_'' @ zero_padded3 (nat n)) \<and>
   length (spec_hash8 E path) \<le> 8 \<and>
   length (spec_stem E path) \<le> 50 \<and>
   (\<forall>c \<in> set (spec_stem E path). str_isalnum E c \<or> c = 45 \<or> c = 95)"
proof (intro conjI impI ballI)
  assume "n = 0"
  then show "generate_file_id E path n = spec_hash8 E path @ py ''_'' @ spec_stem E path"
    by (simp add: generate_file_id_def spec_hash8_def spec_stem_def)
next
  assume "0 < n"
  then show "generate_file_id E path n =
      spec_hash8 E path @ py ''_'' @ spec_stem E path @ py ''_chunk_'' @ zero_padded3 (nat n)"
    by (simp add: generate_file_id_def spec_hash8_def spec_stem_def format_03d_pos)
next
  show "length (spec_hash8 E path) \<le> 8" by (simp add: spec_hash8_def)
next
  show "length (spec_stem E path) \<le> 50" by (simp add: spec_stem_def)
next
  fix c assume "c \<in> set (spec_stem E path)"
  then show "str_isalnum E c \<or> c = 45 \<or> c = 95"
    unfolding spec_stem_def by (auto dest: in_set_takeD)
qed

theorem generate_file_id_format_witness:
  "(0::int) < 7 \<and>
   generate_file_id sample_env (py ''/docs/BRPD Circular-12 (final).v2.txt'') 0 =
     py ''a1b2c3d4_BRPDCircular-12finalv2'' \<and>
   generate_file_id sample_env (py ''/docs/BRPD Circular-12 (final).v2.txt'') 7 =
     py ''a1b2c3d4_BRPDCircular-12finalv2_chunk_007'' \<and>
   length (spec_stem sample_env (py ''/docs/BRPD Circular-12 (final).v2.txt'')) = 22"
proof -
  let ?p = "py ''/docs/BRPD Circular-12 (final).v2.txt''"
  have s: "spec_stem sample_env ?p = py ''BRPDCircular-12finalv2''"
    by code_simp
  have h: "spec_hash8 sample_env ?p = py ''a1b2c3d4''"
    by code_simp
  have z: "zero_padded3 (nat 7) = py ''007''"
    by code_simp
  have c0: "py ''a1b2c3d4'' @ py ''_'' @ py ''BRPDCircular-12finalv2'' =
            py ''a1b2c3d4_BRPDCircular-12finalv2''"
    by (simp add: py_def)
  have c7: "py ''a1b2c3d4'' @ py ''_'' @ py ''BRPDCircular-12finalv2'' @ py ''_chunk_'' @ py ''007'' =
            py ''a1b2c3d4_BRPDCircular-12finalv2_chunk_007''"
    by (simp add: py_def)
  note t0 = generate_file_id_format [of 0 sample_env ?p, unfolded s h z c0]
  note t7 = generate_file_id_format [of 7 sample_env ?p, unfolded s h z c7]
  from t0 have a: "generate_file_id sample_env ?p 0 = py ''a1b2c3d4_BRPDCircular-12finalv2''"
    by blast
  from t7 have b: "generate_file_id sample_env ?p 7 = py ''a1b2c3d4_BRPDCircular-12finalv2_chunk_007''"
    by simp
  have c: "length (spec_stem sample_env ?p) = 22"
    unfolding s by (simp add: py_def)
  show ?thesis using a b c by simp
qed

section \<open>Chunking: theorems\<close>

lemma chunk_loop_done:
  "int (length tokens) \<le> start \<Longrightarrow> chunk_loop E tokens mx ov start chunks = Some chunks"
  by (subst chunk_loop.simps) simp

lemma chunk_loop_break:
  "start < int (length tokens) \<Longrightarrow> mx - ov \<le> 0 \<Longrightarrow>
   chunk_loop E tokens mx ov start chunks = Some (chunks @ window_chunk E tokens mx start)"
  by (subst chunk_loop.simps) (simp add: window_chunk_def token_window_def Let_def)

lemma chunk_loop_step:
  "start < int (length tokens) \<Longrightarrow> 0 < mx - ov \<Longrightarrow>
   chunk_loop E tokens mx ov start chunks =
     chunk_loop E tokens mx ov (start + (mx - ov)) (chunks @ window_chunk E tokens mx start)"
  by (subst chunk_loop.simps) (simp add: window_chunk_def token_window_def Let_def)

lemma window_starts_done: "int n \<le> start \<Longrightarrow> 0 < step \<Longrightarrow> window_starts n step start = []"
proof -
  assume a: "int n \<le> start" "0 < step"
  define x where "x = int n - start + step - 1"
  have "x < step" using a by (simp add: x_def)
  then have "x div step \<le> 0"
    using a(2) by (cases "x < 0") (simp_all add: pos_imp_zdiv_neg_iff div_pos_pos_trivial order_less_imp_le)
  then show ?thesis by (simp add: window_starts_def x_def)
qed

lemma window_starts_step:
  assumes "start < int n" "0 < step"
  shows "window_starts n step start = start # window_starts n step (start + step)"
proof -
  let ?c = "\<lambda>s. (int n - s + step - 1) div step"
  define y where "y = int n - (start + step) + step - 1"
  have e: "int n - start + step - 1 = y + step" by (simp add: y_def)
  have "(y + step) div step = y div step + 1"
    using assms(2) by (intro div_add_self2) simp
  then have "?c start = ?c (start + step) + 1"
    unfolding e by (simp add: y_def)
  moreover have "0 \<le> ?c (start + step)"
    using assms by (simp add: pos_imp_zdiv_nonneg_iff)
  ultimately have n: "nat (?c start) = Suc (nat (?c (start + step)))" by simp
  have m: "map (\<lambda>k. start + int k * step) (map Suc [0 ..< m]) =
           map (\<lambda>k. start + step + int k * step) [0 ..< m]" for m
    by (simp add: algebra_simps)
  show ?thesis
    unfolding window_starts_def n upt_conv_Cons [OF zero_less_Suc] map_Suc_upt [symmetric]
    using m by simp
qed

lemma chunk_loop_closed:
  assumes "0 < mx - ov"
  shows "chunk_loop E tokens mx ov start chunks =
     Some (chunks @ concat (map (window_chunk E tokens mx) (window_starts (length tokens) (mx - ov) start)))"
proof (induction "nat (int (length tokens) - start)" arbitrary: start chunks rule: less_induct)
  case less
  show ?case
  proof (cases "start < int (length tokens)")
    case False
    then show ?thesis using assms by (simp add: chunk_loop_done window_starts_done)
  next
    case True
    have "nat (int (length tokens) - (start + (mx - ov))) < nat (int (length tokens) - start)"
      using True assms by simp
    from less [OF this] show ?thesis 
      using True assms by (simp add: chunk_loop_step window_starts_step)
  qed
qed



lemma length_window_chunk: "length (window_chunk E tokens mx start) \<le> 1"
  by (simp add: window_chunk_def Let_def)

lemma window_starts_below:
  assumes "0 < step" "s \<in> set (window_starts n step start)"
  shows "start \<le> s \<and> s < int n"
proof -
  define x where "x = int n - start + step - 1"
  from assms(2) obtain k where k: "k < nat (x div step)" "s = start + int k * step"
    by (auto simp: window_starts_def x_def)
  then have "int k + 1 \<le> x div step" by linarith
  then have "(int k + 1) * step \<le> (x div step) * step"
    using assms(1) by (simp add: mult_right_mono)
  also have "\<dots> \<le> x"
  proof -
    have "x = (x div step) * step + x mod step" by simp
    moreover have "0 \<le> x mod step" using assms(1) by simp
    ultimately show ?thesis by linarith
  qed
  finally have "int k * step + step \<le> x" by (simp add: algebra_simps)
  then have "s < int n" by (simp add: k x_def)
  moreover have "0 \<le> int k * step" using assms(1) by simp
  ultimately show ?thesis using k by simp
qed

lemma window_starts_reach:
  assumes "0 < step"
  shows "int n \<le> start + int (length (window_starts n step start)) * step \<or> int n \<le> start"
proof -
  define x where "x = int n - start + step - 1"
  have l: "length (window_starts n step start) = nat (x div step)"
    by (simp add: window_starts_def x_def)
  show ?thesis
  proof (cases "int n \<le> start")
    case True then show ?thesis by simp
  next
    case False
    then have "0 \<le> x" using assms by (simp add: x_def)
    then have nn: "0 \<le> x div step" using assms by (simp add: pos_imp_zdiv_nonneg_iff)
    have "x = (x div step) * step + x mod step" by simp
    moreover have "x mod step < step" using assms by simp
    ultimately have "x < (x div step) * step + step" by linarith
    then have "int n - start \<le> (x div step) * step" by (simp add: x_def)
    then show ?thesis using nn by (simp add: l)
  qed
qed

text \<open>
  C8. \<open>chunk_text_by_tokens\<close> returns (a value or an exception of the tokenizer) for
  every text, \<open>max_tokens\<close> and \<open>overlap_tokens\<close>, and so does its loop from every
  state. With a positive step the loop visits the starts \<open>start\<close>, \<open>start + step\<close>,
  \<dots> that are below the number of tokens and ends at the first one that is not; with
  a step of zero or less it makes one pass and appends at most one chunk.
\<close>

theorem chunk_text_by_tokens_terminates:
  "(\<exists>r. chunk_text_by_tokens E text max_tokens overlap_tokens = Some r) \<and>
   (\<exists>cs. chunk_loop E tokens max_tokens overlap_tokens start chunks = Some cs) \<and>
   (0 < max_tokens - overlap_tokens \<longrightarrow>
      chunk_loop E tokens max_tokens overlap_tokens start chunks =
        Some (chunks @ concat (map (window_chunk E tokens max_tokens)
          (window_starts (length tokens) (max_tokens - overlap_tokens) start))) \<and>
      (\<forall>s \<in> set (window_starts (length tokens) (max_tokens - overlap_tokens) start).
         s < int (length tokens)) \<and>
      (int (length tokens) \<le> start \<or>
       int (length tokens) \<le> start +
         int (length (window_starts (length tokens) (max_tokens - overlap_tokens) start)) *
           (max_tokens - overlap_tokens))) \<and>
   (max_tokens - overlap_tokens \<le> 0 \<and> start < int (length tokens) \<longrightarrow>
      chunk_loop E tokens max_tokens overlap_tokens start chunks =
        Some (chunks @ window_chunk E tokens max_tokens start) \<and>
      length (window_chunk E tokens max_tokens start) \<le> 1) \<and>
   (max_tokens - overlap_tokens \<le> 0 \<longrightarrow>
      (\<forall>cs. chunk_text_by_tokens E text max_tokens overlap_tokens = Some (Returns cs) \<longrightarrow>
         length cs \<le> 1))"
proof -
  have loop: "\<exists>cs. chunk_loop E toks max_tokens overlap_tokens s0 c0 = Some cs" for toks s0 c0
  proof (cases "0 < max_tokens - overlap_tokens")
    case True
    then show ?thesis by (simp add: chunk_loop_closed)
  next
    case False
    then show ?thesis
      by (cases "s0 < int (length toks)") (simp_all add: chunk_loop_break chunk_loop_done)
  qed
  have total: "\<exists>r. chunk_text_by_tokens E text max_tokens overlap_tokens = Some r"
  proof (cases "tokenizer_encode E text")
    case (Inl e)
    then show ?thesis by (simp add: chunk_text_by_tokens_def)
  next
    case (Inr toks)
    from loop [of toks 0 "[]"] obtain cs
      where "chunk_loop E toks max_tokens overlap_tokens 0 [] = Some cs" ..
    then show ?thesis using Inr by (simp add: chunk_text_by_tokens_def)
  qed
  have pos: "0 < max_tokens - overlap_tokens \<Longrightarrow>
      chunk_loop E tokens max_tokens overlap_tokens start chunks =
        Some (chunks @ concat (map (window_chunk E tokens max_tokens)
          (window_starts (length tokens) (max_tokens - overlap_tokens) start))) \<and>
      (\<forall>s \<in> set (window_starts (length tokens) (max_tokens - overlap_tokens) start).
         s < int (length tokens)) \<and>
      (int (length tokens) \<le> start \<or>
       int (length tokens) \<le> start +
         int (length (window_starts (length tokens) (max_tokens - overlap_tokens) start)) *
           (max_tokens - overlap_tokens))"
    using window_starts_below [of "max_tokens - overlap_tokens" _ "length tokens" start]
      window_starts_reach [of "max_tokens - overlap_tokens" "length tokens" start]
    by (auto simp: chunk_loop_closed)
  have brk: "max_tokens - overlap_tokens \<le> 0 \<and> start < int (length tokens) \<Longrightarrow>
      chunk_loop E tokens max_tokens overlap_tokens start chunks =
        Some (chunks @ window_chunk E tokens max_tokens start) \<and>
      length (window_chunk E tokens max_tokens start) \<le> 1"
    using length_window_chunk [of E tokens max_tokens start] by (simp add: chunk_loop_break)
  have one: "length cs \<le> 1"
    if "max_tokens - overlap_tokens \<le> 0"
      and r: "chunk_text_by_tokens E text max_tokens overlap_tokens = Some (Returns cs)" for cs
  proof (cases "tokenizer_encode E text")
    case (Inl e)
    then show ?thesis using r by (simp add: chunk_text_by_tokens_def)
  next
    case (Inr toks)
    show ?thesis
    proof (cases "int (length toks) \<le> max_tokens")
      case True
      then show ?thesis using r Inr by (auto simp: chunk_text_by_tokens_def)
    next
      case False
      show ?thesis
      proof (cases "0 < int (length toks)")
        case True
        then have "chunk_loop E toks max_tokens overlap_tokens 0 [] =
            Some ([] @ window_chunk E toks max_tokens 0)"
          using that(1) by (intro chunk_loop_break) auto
        then show ?thesis
          using r Inr False length_window_chunk [of E toks max_tokens 0]
          by (auto simp: chunk_text_by_tokens_def)
      next
        case empty: False
        then have "chunk_loop E toks max_tokens overlap_tokens 0 [] = Some []"
          by (intro chunk_loop_done) simp
        then show ?thesis
          using r Inr False by (auto simp: chunk_text_by_tokens_def)
      qed
    qed
  qed
  show ?thesis using loop total pos brk one by blast
qed

lemma sample_tokenizer:
  "tokenizer_encode sample_env text = Inr text"
  "tokenizer_encode_ordinary sample_env text = Inr text"
  "tokenizer_decode sample_env tokens = tokens"
  by (simp_all add: sample_env_def)

lemma sample_window_chunk:
  "window_chunk sample_env tokens mx start =
     (if strip (token_window tokens mx start) \<noteq> [] then [strip (token_window tokens mx start)]
      else [])"
  by (simp add: window_chunk_def Let_def sample_tokenizer)

theorem chunk_text_by_tokens_terminates_witness:
  "(0::int) < 4 - 2 \<and>
   chunk_loop sample_env (py ''abcde'') 4 2 0 [] = Some [py ''abcd'', py ''cde'', py ''e''] \<and>
   (3::int) - 3 \<le> 0 \<and> (0::int) < int (length (py ''abcde'')) \<and>
   chunk_loop sample_env (py ''abcde'') 3 3 0 [] = Some [py ''abc''] \<and>
   chunk_text_by_tokens sample_env (py ''abcde'') 3 3 = Some (Returns [py ''abc''])"
proof -
  have s: "window_starts (length (py ''abcde'')) (4 - 2) 0 = [0, 2, 4]"
    by (simp add: window_starts_def upt_conv_Cons py_def)
  have w0: "window_chunk sample_env (py ''abcde'') 4 0 = [py ''abcd'']"
    by (simp add: sample_window_chunk token_window_def py_slice_def slice_bound_def
        strip_def isspace_def py_def)
  have w2: "window_chunk sample_env (py ''abcde'') 4 2 = [py ''cde'']"
    by (simp add: sample_window_chunk token_window_def py_slice_def slice_bound_def
        strip_def isspace_def py_def)
  have w4: "window_chunk sample_env (py ''abcde'') 4 4 = [py ''e'']"
    by (simp add: sample_window_chunk token_window_def py_slice_def slice_bound_def
        strip_def isspace_def py_def)
  have v0: "window_chunk sample_env (py ''abcde'') 3 0 = [py ''abc'']"
    by (simp add: sample_window_chunk token_window_def py_slice_def slice_bound_def
        strip_def isspace_def py_def)
  have l: "(0::int) < int (length (py ''abcde''))" by (simp add: py_def)
  note t = chunk_text_by_tokens_terminates
  from t [of sample_env "py ''abcde''" 4 2 "py ''abcde''" 0 "[]"]
  have a: "chunk_loop sample_env (py ''abcde'') 4 2 0 [] = Some [py ''abcd'', py ''cde'', py ''e'']"
    unfolding s by (simp add: w0 w2 w4)
  from t [of sample_env "py ''abcde''" 3 3 "py ''abcde''" 0 "[]"] l
  have b: "chunk_loop sample_env (py ''abcde'') 3 3 0 [] = Some [py ''abc'']"
    by (simp add: v0)
  have c: "chunk_text_by_tokens sample_env (py ''abcde'') 3 3 = Some (Returns [py ''abc''])"
    using b l by (simp add: chunk_text_by_tokens_def sample_tokenizer py_def)
  show ?thesis using a b c l by simp
qed

section \<open>Windows\<close>

lemma token_window_take_drop:
  assumes "0 \<le> start" "0 \<le> mx"
  shows "token_window tokens mx start = take (nat mx) (drop (nat start) tokens)"
proof (cases "start < int (length tokens)")
  case True
  have lo: "slice_bound (length tokens) start = nat start"
    using True assms by (simp add: slice_bound_def)
  have hi: "slice_bound (length tokens) (min (start + mx) (int (length tokens))) =
            min (nat (start + mx)) (length tokens)"
    using True assms by (auto simp: slice_bound_def min_def)
  have eq: "min (nat (start + mx)) (length tokens) - nat start = min (nat mx) (length tokens - nat start)"
    using True assms by (auto simp: min_def nat_add_distrib)
  have "token_window tokens mx start =
      take (slice_bound (length tokens) (min (start + mx) (int (length tokens))) -
            slice_bound (length tokens) start) (drop (slice_bound (length tokens) start) tokens)"
    by (simp add: token_window_def py_slice_def Let_def)
  also have "\<dots> = take (min (nat mx) (length tokens - nat start)) (drop (nat start) tokens)"
    by (simp only: lo hi eq)
  also have "\<dots> = take (nat mx) (drop (nat start) tokens)"
    by (simp add: min_def)
  finally show ?thesis .
next
  case False
  then have "slice_bound (length tokens) start = length tokens"
    using assms by (simp add: slice_bound_def)
  then show ?thesis
    using False by (simp add: token_window_def py_slice_def Let_def)
qed

lemma nth_window_starts:
  "i < length (window_starts n step start) \<Longrightarrow> window_starts n step start ! i = start + int i * step"
  by (simp add: window_starts_def)

lemma window_overlap:
  fixes m k s :: nat
  assumes "k \<le> m" "s + k < length tokens"
  shows "drop k (take m (drop s tokens)) =
         take (length (take m (drop s tokens)) - k) (take m (drop (s + k) tokens))"
proof -
  have "drop k (take m (drop s tokens)) = take (m - k) (drop (s + k) tokens)"
    by (simp add: drop_take add.commute)
  moreover have "take (length (take m (drop s tokens)) - k) (take m (drop (s + k) tokens)) =
      take (min (m - k) (length tokens - s - k)) (drop (s + k) tokens)"
    using assms by (simp add: min_def)
  moreover have "take (min (m - k) (length tokens - s - k)) (drop (s + k) tokens) =
      take (m - k) (drop (s + k) tokens)"
    by (simp add: min_def)
  ultimately show ?thesis by simp
qed

lemma chunk_loop_windows:
  assumes "0 < mx - ov"
  shows "chunk_loop E tokens mx ov 0 [] =
     Some (concat (map (\<lambda>w. if strip (tokenizer_decode E w) \<noteq> []
                               then [strip (tokenizer_decode E w)] else [])
        (chunk_windows tokens mx ov)))"
proof -
  have "window_chunk E tokens mx =
      (\<lambda>w. if strip (tokenizer_decode E w) \<noteq> [] then [strip (tokenizer_decode E w)] else []) \<circ>
      token_window tokens mx"
    by (auto simp: window_chunk_def Let_def)
  then show ?thesis
    using assms by (simp add: chunk_loop_closed chunk_windows_def)
qed

text \<open>
  C6, as the program has it. Let \<open>0 \<le> overlap_tokens < max_tokens\<close>; the chunks are
  the trimmed, non-blank decodings of the token windows. For two consecutive windows,
  the tokens of the first from offset \<open>max_tokens - overlap_tokens\<close> on are the head
  of the second; when the first window is full (\<open>max_tokens\<close> tokens, which it is
  when it ends at or before the last token) they are its last \<open>overlap_tokens\<close>
  tokens and the first \<open>overlap_tokens\<close> tokens of the second.
\<close>

theorem consecutive_windows_overlap:
  assumes "0 \<le> overlap_tokens" "overlap_tokens < max_tokens"
    and "Suc i < length (chunk_windows tokens max_tokens overlap_tokens)"
  shows "chunk_loop E tokens max_tokens overlap_tokens 0 [] =
     Some (concat (map (\<lambda>w. if strip (tokenizer_decode E w) \<noteq> []
                               then [strip (tokenizer_decode E w)] else [])
        (chunk_windows tokens max_tokens overlap_tokens))) \<and>
   drop (nat (max_tokens - overlap_tokens)) (chunk_windows tokens max_tokens overlap_tokens ! i) =
     take (length (chunk_windows tokens max_tokens overlap_tokens ! i) -
             nat (max_tokens - overlap_tokens))
       (chunk_windows tokens max_tokens overlap_tokens ! Suc i) \<and>
   (int i * (max_tokens - overlap_tokens) + max_tokens \<le> int (length tokens) \<longrightarrow>
      length (chunk_windows tokens max_tokens overlap_tokens ! i) = nat max_tokens) \<and>
   (length (chunk_windows tokens max_tokens overlap_tokens ! i) = nat max_tokens \<longrightarrow>
      last_tokens (nat overlap_tokens) (chunk_windows tokens max_tokens overlap_tokens ! i) =
      first_tokens (nat overlap_tokens) (chunk_windows tokens max_tokens overlap_tokens ! Suc i))"
proof -
  define step where "step = max_tokens - overlap_tokens"
  define m where "m = nat max_tokens"
  define k where "k = nat step"
  define s where "s = i * k"
  let ?ws = "chunk_windows tokens max_tokens overlap_tokens"
  let ?starts = "window_starts (length tokens) step 0"
  have step: "0 < step" and km: "k \<le> m" and mk: "m - k = nat overlap_tokens"
    using assms(1,2) by (simp_all add: step_def k_def m_def)
  have len: "Suc i < length ?starts"
    using assms(3) by (simp add: chunk_windows_def step_def)
  have si: "?starts ! i = int s" and ssi: "?starts ! Suc i = int (s + k)"
    using len step by (simp_all add: nth_window_starts s_def k_def algebra_simps)
  have "?starts ! Suc i \<in> set ?starts" using len by simp
  from window_starts_below [OF step this] have below: "s + k < length tokens"
    unfolding ssi by simp
  have wi: "?ws ! i = take m (drop s tokens)"
    using len assms(1,2) by (simp add: chunk_windows_def step_def [symmetric] si
        token_window_take_drop m_def)
  have wsi: "?ws ! Suc i = take m (drop (s + k) tokens)"
    using len assms(1,2) unfolding chunk_windows_def step_def [symmetric]
    by (simp add: ssi token_window_take_drop m_def del: of_nat_add)
  have a: "drop k (?ws ! i) = take (length (?ws ! i) - k) (?ws ! Suc i)"
    unfolding wi wsi using km below by (rule window_overlap)
  have full: "length (?ws ! i) = m"
    if "int i * step + max_tokens \<le> int (length tokens)"
  proof -
    have "int s + int m \<le> int (length tokens)"
      using that step assms(1,2) by (simp add: s_def k_def m_def)
    then show ?thesis by (simp add: wi)
  qed
  have b: "last_tokens (nat overlap_tokens) (?ws ! i) = first_tokens (nat overlap_tokens) (?ws ! Suc i)"
    if "length (?ws ! i) = m"
  proof -
    have "m - nat overlap_tokens = k" using mk km by simp
    then show ?thesis using a that by (simp add: last_tokens_def first_tokens_def mk)
  qed
  have loop: "chunk_loop E tokens max_tokens overlap_tokens 0 [] =
     Some (concat (map (\<lambda>w. if strip (tokenizer_decode E w) \<noteq> []
                               then [strip (tokenizer_decode E w)] else []) ?ws))"
    using step by (simp add: chunk_loop_windows step_def)
  show ?thesis
    using loop a full b by (simp add: step_def k_def m_def)
qed

lemma blank_replicate [simp]: "isspace c \<Longrightarrow> strip (replicate n c) = []"
  by (simp add: strip_def)

lemma strip_no_space:
  assumes "s \<noteq> []" "\<not> isspace (hd s)" "\<not> isspace (last s)"
  shows "strip s = s"
proof -
  have 1: "dropWhile isspace s = s" using assms(1,2) by (cases s) simp_all
  have "rev s \<noteq> []" "\<not> isspace (hd (rev s))" using assms by (simp_all add: hd_rev)
  then have 2: "dropWhile isspace (rev s) = rev s" by (cases "rev s") simp_all
  show ?thesis by (simp add: strip_def 1 2)
qed

lemma sample_windows: "chunk_windows (py ''abcde'') 4 2 = [py ''abcd'', py ''cde'', py ''e'']"
  by (simp add: chunk_windows_def window_starts_step window_starts_done token_window_take_drop py_def)

theorem consecutive_windows_overlap_witness:
  "(0::int) \<le> 2 \<and> (2::int) < 4 \<and> Suc 0 < length (chunk_windows (py ''abcde'') 4 2) \<and>
   chunk_windows (py ''abcde'') 4 2 = [py ''abcd'', py ''cde'', py ''e''] \<and>
   int 0 * (4 - 2) + 4 \<le> int (length (py ''abcde'')) \<and>
   last_tokens 2 (py ''abcd'') = first_tokens 2 (py ''cde'') \<and>
   chunk_loop sample_env (py ''abcde'') 4 2 0 [] = Some [py ''abcd'', py ''cde'', py ''e'']"
proof -
  have h: "(0::int) \<le> 2" "(2::int) < 4" "Suc 0 < length (chunk_windows (py ''abcde'') 4 2)"
    by (simp_all add: sample_windows)
  have f: "int 0 * (4 - 2) + 4 \<le> int (length (py ''abcde''))" by (simp add: py_def)
  have st: "strip (py ''abcd'') = py ''abcd''" "strip (py ''cde'') = py ''cde''"
    "strip (py ''e'') = py ''e''"
    by (simp_all add: strip_def isspace_def py_def)
  note t = consecutive_windows_overlap [OF h, of sample_env, unfolded sample_windows]
  from t f have "last_tokens (nat 2) (py ''abcd'') = first_tokens (nat 2) (py ''cde'')"
    by simp
  moreover from t have "chunk_loop sample_env (py ''abcde'') 4 2 0 [] =
      Some [py ''abcd'', py ''cde'', py ''e'']"
    by (simp add: sample_tokenizer st) (simp add: py_def)
  ultimately show ?thesis using h f by (simp add: sample_windows)
qed

text \<open>
  C6 as stated fails when a window that already reaches the last token is followed by
  another one: five tokens with \<open>max_tokens = 4\<close> and \<open>overlap_tokens = 2\<close> give the
  chunks of the windows \<open>[0,4)\<close>, \<open>[2,5)\<close> and \<open>[4,5)\<close>, and the last has one token
  only; with the defaults 6000 and 100, 11850 tokens give windows of 6000, 5950 and 50
  tokens.
\<close>

theorem chunk_overlap_counterexample:
  "chunk_text_by_tokens sample_env (py ''abcde'') 4 2 =
     Some (Returns [py ''abcd'', py ''cde'', py ''e'']) \<and>
   \<not> spec_overlap sample_env 2 [py ''abcd'', py ''cde'', py ''e''] \<and>
   chunk_text_by_tokens sample_env (replicate 11850 97) 6000 100 =
     Some (Returns [replicate 6000 97, replicate 5950 97, replicate 50 97]) \<and>
   \<not> spec_overlap sample_env 100 [replicate 6000 97, replicate 5950 97, replicate 50 97]"
proof -
  have st: "strip (py ''abcd'') = py ''abcd''" "strip (py ''cde'') = py ''cde''"
    "strip (py ''e'') = py ''e''"
    by (simp_all add: strip_def isspace_def py_def)
  have "chunk_loop sample_env (py ''abcde'') 4 2 0 [] = Some [py ''abcd'', py ''cde'', py ''e'']"
    by (simp add: chunk_loop_windows sample_windows sample_tokenizer st) (simp add: py_def)
  then have a: "chunk_text_by_tokens sample_env (py ''abcde'') 4 2 =
     Some (Returns [py ''abcd'', py ''cde'', py ''e''])"
    by (simp add: chunk_text_by_tokens_def sample_tokenizer py_def)
  have b: "\<not> spec_overlap sample_env 2 [py ''abcd'', py ''cde'', py ''e'']"
    by (simp add: sample_tokenizer last_tokens_def first_tokens_def py_def)
  have w: "chunk_windows (replicate 11850 97) 6000 100 =
      [replicate 6000 97, replicate 5950 97, replicate 50 97]"
    by (simp add: chunk_windows_def window_starts_step window_starts_done token_window_take_drop)
  have sp: "\<not> isspace 97" by (simp add: isspace_def)
  have st2: "strip (replicate (Suc n) 97) = replicate (Suc n) 97" for n
    using sp by (intro strip_no_space) (simp_all add: last_replicate del: replicate_Suc)
  have st3: "strip (replicate 6000 97) = replicate 6000 97"
    "strip (replicate 5950 97) = replicate 5950 97" "strip (replicate 50 97) = replicate 50 97"
    using st2 [of 5999] st2 [of 5949] st2 [of 49] by simp_all
  have "chunk_loop sample_env (replicate 11850 97) 6000 100 0 [] =
      Some [replicate 6000 97, replicate 5950 97, replicate 50 97]"
    by (simp add: chunk_loop_windows w sample_tokenizer st3)
  then have c: "chunk_text_by_tokens sample_env (replicate 11850 97) 6000 100 =
     Some (Returns [replicate 6000 97, replicate 5950 97, replicate 50 97])"
    by (simp add: chunk_text_by_tokens_def sample_tokenizer)
  have d: "\<not> spec_overlap sample_env 100 [replicate 6000 97, replicate 5950 97, replicate 50 97]"
    by (simp add: sample_tokenizer last_tokens_def first_tokens_def)
  show ?thesis using a b c d by blast
qed

section \<open>Traces of the upload\<close>

lemma requests_append [simp]: "requests (a @ b) = requests a @ requests b"
  by (induction a rule: requests.induct) simp_all

lemma sleeps_append [simp]: "sleeps (a @ b) = sleeps a @ sleeps b"
  by (induction a rule: sleeps.induct) simp_all

lemma sent_vectors_append [simp]: "sent_vectors (a @ b) = sent_vectors a @ sent_vectors b"
  by (induction a rule: sent_vectors.induct) simp_all

lemma embedding_attempts_frame:
  "embedding_attempts E text attempts st = (r, st') \<Longrightarrow>
   vectors st' = vectors st \<and> successful_chunks st' = successful_chunks st \<and>
   upsert_calls st' = upsert_calls st \<and>
   sent_vectors (trace st') = sent_vectors (trace st) \<and>
   set (requests (trace st')) \<subseteq> set (requests (trace st)) \<union> {text}"
proof (induction attempts arbitrary: st)
  case Nil
  then show ?case by auto
next
  case (Cons attempt rest)
  show ?case
  proof (cases "embeddings_create E (embed_calls st) text")
    case (Created emb)
    then show ?thesis using Cons.prems by (auto simp: embeddings_request_def)
  next
    case (CreateRaised e)
    show ?thesis
    proof (cases "(str_in (py ''429'') e \<or> str_in (py ''quota'') (str_lower E e)) \<and>
                  attempt < max_retries - 1")
      case True
      let ?st = "time_sleep (retry_delay * (attempt + 1))
         (st\<lparr>embed_calls := embed_calls st + 1, trace := trace st @ [EmbedRequest text]\<rparr>)"
      have "embedding_attempts E text rest ?st = (r, st')"
        using Cons.prems CreateRaised True by (simp add: embeddings_request_def Let_def)
      from Cons.IH [OF this] show ?thesis by (auto simp: time_sleep_def)
    next
      case False
      then show ?thesis
        using Cons.prems CreateRaised by (auto simp: embeddings_request_def split: if_splits)
    qed
  qed
qed

lemma get_embedding_frame:
  assumes "get_embedding E text st = (r, st')"
  shows "vectors st' = vectors st \<and> successful_chunks st' = successful_chunks st \<and>
   upsert_calls st' = upsert_calls st \<and>
   sent_vectors (trace st') = sent_vectors (trace st)"
proof (cases "count_tokens E text > 8190")
  case False
  then obtain emb where "embedding_attempts E text [0 .. max_retries - 1] st = (emb, st')"
    using assms by (auto simp: get_embedding_def split: prod.splits)
  from embedding_attempts_frame [OF this] show ?thesis by simp
next
  case True
  show ?thesis
  proof (cases "tokenizer_encode E text")
    case (Inl e)
    then show ?thesis using assms True by (simp add: get_embedding_def)
  next
    case (Inr tokens)
    then obtain emb where "embedding_attempts E (tokenizer_decode E (take 8190 tokens))
        [0 .. max_retries - 1] st = (emb, st')"
      using assms True by (auto simp: get_embedding_def split: prod.splits)
    from embedding_attempts_frame [OF this] show ?thesis by simp
  qed
qed

lemma get_embedding_short:
  assumes "\<not> count_tokens E text > 8190" "get_embedding E text st = (r, st')"
  shows "(\<exists>emb. r = Returns emb) \<and>
         set (requests (trace st')) \<subseteq> set (requests (trace st)) \<union> {text}"
proof -
  obtain emb where e: "embedding_attempts E text [0 .. max_retries - 1] st = (emb, st')"
    and "r = Returns emb"
    using assms by (auto simp: get_embedding_def split: prod.splits)
  then show ?thesis using embedding_attempts_frame [OF e] by simp
qed

lemma count_tokens_nonneg: "0 \<le> count_tokens E text"
  by (simp add: count_tokens_def pos_imp_zdiv_nonneg_iff split: sum.splits)

lemma upsert_vectors_sent:
  "sent_vectors (trace (upsert_vectors E st)) = sent_vectors (trace st) @ vectors st"
  "vectors (upsert_vectors E st) = []"
  "requests (trace (upsert_vectors E st)) = requests (trace st)"
  by (simp_all add: upsert_vectors_def split: option.splits)

lemma upload_chunks_skip:
  "count_tokens E c = 0 \<or> count_tokens E c > 8190 \<Longrightarrow>
   upload_chunks E path chunks ((i, c) # xs) st = upload_chunks E path chunks xs st"
  by (auto simp: Let_def)

lemma upload_chunks_embed:
  assumes "\<not> (count_tokens E c = 0 \<or> count_tokens E c > 8190)"
    and "get_embedding E c st = (g, st1)"
  shows "upload_chunks E path chunks ((i, c) # xs) st =
     (case g of
        Raises e \<Rightarrow> (Raises e, st1)
      | Returns None \<Rightarrow> upload_chunks E path chunks xs st1
      | Returns (Some emb) \<Rightarrow> upload_chunks E path chunks xs (push_vector E path chunks i c emb st1))"
  using assms by (simp add: Let_def push_vector_def split: result.splits option.splits)

lemma push_vector_frame:
  "requests (trace (push_vector E path chunks i c emb st)) = requests (trace st)"
  "set (vectors (push_vector E path chunks i c emb st)) \<union>
   set (sent_vectors (trace (push_vector E path chunks i c emb st))) \<subseteq>
     set (vectors st) \<union> set (sent_vectors (trace st)) \<union>
     {\<lparr>vector_id = chunk_vector_id E path chunks i, vector_values = emb,
       meta_source = os_path_basename E path, meta_text = take 10000 c,
       meta_chunk = (if length chunks > 1
                     then Some (int i + 1, int (length chunks)) else None)\<rparr>}"
  by (auto simp: push_vector_def Let_def upsert_vectors_sent)

lemma upload_chunks_inv:
  assumes "upload_chunks E path chunks xs st = (r, st')"
    and "\<forall>(i, c) \<in> set xs. i < length chunks \<and> c = chunks ! i"
  shows "set (requests (trace st')) \<subseteq> set (requests (trace st)) \<union>
           {t \<in> set chunks. 0 < count_tokens E t \<and> count_tokens E t \<le> 8190} \<and>
         set (vectors st') \<union> set (sent_vectors (trace st')) \<subseteq>
           set (vectors st) \<union> set (sent_vectors (trace st)) \<union>
           {v. \<exists>i. is_chunk_vector E path chunks i v}"
proof -
  define Q where "Q = {t \<in> set chunks. 0 < count_tokens E t \<and> count_tokens E t \<le> 8190}"
  define V where "V = {v. \<exists>i. is_chunk_vector E path chunks i v}"
  have "set (requests (trace st')) \<subseteq> set (requests (trace st)) \<union> Q \<and>
        set (vectors st') \<union> set (sent_vectors (trace st')) \<subseteq>
          set (vectors st) \<union> set (sent_vectors (trace st)) \<union> V"
    using assms
  proof (induction xs arbitrary: st)
    case Nil
    then show ?case by simp
  next
    case (Cons x xs)
    obtain i c where x: "x = (i, c)" by (cases x)
    have ic: "i < length chunks" "c = chunks ! i"
      using Cons.prems(2) unfolding x by simp_all
    have rest: "\<forall>(i, c) \<in> set xs. i < length chunks \<and> c = chunks ! i"
      using Cons.prems(2) by simp
    have cin: "c \<in> set chunks" using ic by simp
    show ?case
    proof (cases "count_tokens E c = 0 \<or> count_tokens E c > 8190")
      case True
      then have "upload_chunks E path chunks xs st = (r, st')"
        using Cons.prems(1) unfolding x by (simp only: upload_chunks_skip)
      from Cons.IH [OF this rest] show ?thesis .
    next
      case False
      then have "0 < count_tokens E c \<and> count_tokens E c \<le> 8190"
        using count_tokens_nonneg [of E c] by linarith
      then have cq: "c \<in> Q" using cin by (simp add: Q_def)
      obtain g st1 where g: "get_embedding E c st = (g, st1)" by (cases "get_embedding E c st")
      have short: "\<not> count_tokens E c > 8190" using False by simp
      from get_embedding_frame [OF g]
      have f: "vectors st1 = vectors st" "sent_vectors (trace st1) = sent_vectors (trace st)"
        by simp_all
      from get_embedding_short [OF short g]
      have f3: "set (requests (trace st1)) \<subseteq> set (requests (trace st)) \<union> {c}"
        and ret: "\<exists>emb. g = Returns emb"
        by simp_all
      from ret obtain emb where emb: "g = Returns emb" ..
      note step = Cons.prems(1) [unfolded x upload_chunks_embed [OF False g] emb]
      show ?thesis
      proof (cases emb)
        case None
        then have "upload_chunks E path chunks xs st1 = (r, st')"
          using step by simp
        from Cons.IH [OF this rest] show ?thesis
          unfolding f using f3 cq by blast
      next
        case (Some e)
        define v where "v = \<lparr>vector_id = chunk_vector_id E path chunks i, vector_values = e,
            meta_source = os_path_basename E path, meta_text = take 10000 c,
            meta_chunk = (if length chunks > 1 then Some (int i + 1, int (length chunks)) else None)\<rparr>"
        define st3 where "st3 = push_vector E path chunks i c e st1"
        have "is_chunk_vector E path chunks i v"
          using ic by (simp add: is_chunk_vector_def v_def)
        then have v: "v \<in> V" unfolding V_def by blast
        have "upload_chunks E path chunks xs st3 = (r, st')"
          using step Some by (simp add: st3_def)
        from Cons.IH [OF this rest]
        have ih1: "set (requests (trace st')) \<subseteq> set (requests (trace st3)) \<union> Q"
          and ih2: "set (vectors st') \<union> set (sent_vectors (trace st')) \<subseteq>
             set (vectors st3) \<union> set (sent_vectors (trace st3)) \<union> V"
          by simp_all
        have r3: "requests (trace st3) = requests (trace st1)"
          by (simp add: st3_def push_vector_frame)
        have v3: "set (vectors st3) \<union> set (sent_vectors (trace st3)) \<subseteq>
            set (vectors st1) \<union> set (sent_vectors (trace st1)) \<union> {v}"
          unfolding st3_def v_def by (rule push_vector_frame)
        have a: "set (requests (trace st')) \<subseteq> set (requests (trace st)) \<union> Q"
          using ih1 f3 cq unfolding r3 by blast
        have b: "set (vectors st') \<union> set (sent_vectors (trace st')) \<subseteq>
             set (vectors st) \<union> set (sent_vectors (trace st)) \<union> V"
          using ih2 v3 v unfolding f by blast
        show ?thesis using a b ..
      qed
    qed
  qed
  then show ?thesis by (simp only: Q_def V_def)
qed

lemma upload_text_file_inv:
  assumes "upload_text_file E path text st = Some (r, st')"
    and "chunk_text_by_tokens E text MAX_TOKENS OVERLAP_TOKENS = Some (Returns chunks)"
  shows "set (requests (trace st')) \<subseteq> set (requests (trace st)) \<union>
           {t \<in> set chunks. 0 < count_tokens E t \<and> count_tokens E t \<le> 8190} \<and>
         set (sent_vectors (trace st')) \<subseteq>
           set (sent_vectors (trace st)) \<union> {v. \<exists>i. is_chunk_vector E path chunks i v}"
proof (cases "strip text = []")
  case True
  then show ?thesis using assms(1) by (auto simp: upload_text_file_def)
next
  case False
  define st0 where "st0 = st\<lparr>vectors := [], successful_chunks := 0\<rparr>"
  obtain r1 st1 where u: "upload_chunks E path chunks (enumerate 0 chunks) st0 = (r1, st1)"
    by (cases "upload_chunks E path chunks (enumerate 0 chunks) st0")
  have "\<forall>(i, c) \<in> set (enumerate 0 chunks). i < length chunks \<and> c = chunks ! i"
    by (auto simp: in_set_enumerate_eq)
  from upload_chunks_inv [OF u this]
  have a: "set (requests (trace st1)) \<subseteq> set (requests (trace st)) \<union>
           {t \<in> set chunks. 0 < count_tokens E t \<and> count_tokens E t \<le> 8190}"
    and b: "set (vectors st1) \<union> set (sent_vectors (trace st1)) \<subseteq>
           set (sent_vectors (trace st)) \<union> {v. \<exists>i. is_chunk_vector E path chunks i v}"
    by (simp_all add: st0_def)
  have "st' = st1 \<or> st' = upsert_vectors E st1"
    using assms False u
    by (auto simp: upload_text_file_def st0_def split: result.splits if_splits)
  then show ?thesis
  proof
    assume "st' = st1"
    then show ?thesis using a b by simp
  next
    assume "st' = upsert_vectors E st1"
    then show ?thesis using a b by (simp add: upsert_vectors_sent)
  qed
qed

lemma chunk_vector_id_single:
  "chunk_vector_id E file_path [text] i = spec_hash8 E file_path @ py ''_'' @ spec_stem E file_path"
  by (simp add: chunk_vector_id_def generate_file_id_def spec_hash8_def spec_stem_def)

text \<open>
  C4. A text of at most \<open>max_tokens\<close> tokens comes back as the one chunk \<open>[text]\<close>.
  The identifier of that chunk is the one for chunk index 0, without a suffix, in the
  upload and in the validation; every vector that \<open>upload_text_file\<close> sends for such
  a file carries it.
\<close>

theorem single_chunk_text:
  assumes "tokenizer_encode E text = Inr tokens" and "int (length tokens) \<le> max_tokens"
  shows "chunk_text_by_tokens E text max_tokens overlap_tokens = Some (Returns [text]) \<and>
    chunk_vector_id E file_path [text] 0 = generate_file_id E file_path 0 \<and>
    generate_file_id E file_path 0 = spec_hash8 E file_path @ py ''_'' @ spec_stem E file_path \<and>
    ids_to_check E file_path [text] = [spec_hash8 E file_path @ py ''_'' @ spec_stem E file_path] \<and>
    (max_tokens = MAX_TOKENS \<and> upload_text_file E file_path text st = Some (r, st') \<longrightarrow>
       (\<forall>v \<in> set (sent_vectors (trace st')) - set (sent_vectors (trace st)).
          vector_id v = spec_hash8 E file_path @ py ''_'' @ spec_stem E file_path \<and>
          meta_text v = take 10000 text \<and> meta_chunk v = None))"
proof -
  have c: "chunk_text_by_tokens E text max_tokens ov = Some (Returns [text])" for ov
    using assms by (simp add: chunk_text_by_tokens_def)
  have g: "generate_file_id E file_path 0 = spec_hash8 E file_path @ py ''_'' @ spec_stem E file_path"
    by (simp add: generate_file_id_def spec_hash8_def spec_stem_def)
  have i: "ids_to_check E file_path [text] =
      [spec_hash8 E file_path @ py ''_'' @ spec_stem E file_path]"
    by (simp add: ids_to_check_def validator_generate_file_id_def spec_hash8_def spec_stem_def)
  have u: "vector_id v = spec_hash8 E file_path @ py ''_'' @ spec_stem E file_path \<and>
          meta_text v = take 10000 text \<and> meta_chunk v = None"
    if m: "max_tokens = MAX_TOKENS" and up: "upload_text_file E file_path text st = Some (r, st')"
      and v: "v \<in> set (sent_vectors (trace st')) - set (sent_vectors (trace st))" for v
  proof -
    from upload_text_file_inv [OF up c [of OVERLAP_TOKENS, unfolded m]] v
    obtain i where "is_chunk_vector E file_path [text] i v" by blast
    then show ?thesis by (simp add: is_chunk_vector_def chunk_vector_id_single)
  qed
  show ?thesis using c g i u by (simp add: chunk_vector_id_def)
qed

lemma sample_count_tokens: "count_tokens sample_env text = int (length text)"
  by (simp add: count_tokens_def sample_tokenizer)

lemma sample_create: "embeddings_create sample_env k text = Created [int k]"
  by (simp add: sample_env_def)

lemma sample_upsert: "index_upsert sample_env k vs = None"
  by (simp add: sample_env_def)

lemma embedding_attempts_created:
  "embeddings_create E (embed_calls st) text = Created emb \<Longrightarrow>
   embedding_attempts E text (attempt # rest) st =
     (Some emb, st\<lparr>embed_calls := embed_calls st + 1, trace := trace st @ [EmbedRequest text]\<rparr>)"
  by (simp add: embeddings_request_def)

lemma attempts_list: "[0 .. max_retries - 1] = [0, 1, 2]"
  by (simp add: max_retries_def upto_rec1)

theorem single_chunk_text_witness:
  "tokenizer_encode sample_env (py ''hello world'') = Inr (py ''hello world'') \<and>
   int (length (py ''hello world'')) \<le> MAX_TOKENS \<and>
   chunk_text_by_tokens sample_env (py ''hello world'') MAX_TOKENS OVERLAP_TOKENS =
     Some (Returns [py ''hello world'']) \<and>
   upload_text_file sample_env (py ''/d/my file.txt'') (py ''hello world'') fresh_upload =
     Some (Returns (),
       \<lparr>embed_calls = 1, upsert_calls = 1,
        trace = [EmbedRequest (py ''hello world''),
                 Upserted [\<lparr>vector_id = py ''a1b2c3d4_myfile'', vector_values = [0],
                            meta_source = py ''my file.txt'', meta_text = py ''hello world'',
                            meta_chunk = None\<rparr>]],
        vectors = [], successful_chunks = 1\<rparr>)"
proof -
  let ?t = "py ''hello world''" and ?p = "py ''/d/my file.txt''"
  have h: "tokenizer_encode sample_env ?t = Inr ?t" "int (length ?t) \<le> MAX_TOKENS"
    by (simp_all add: sample_tokenizer MAX_TOKENS_def py_def)
  note t = single_chunk_text [OF h, of OVERLAP_TOKENS ?p]
  from t have c: "chunk_text_by_tokens sample_env ?t MAX_TOKENS OVERLAP_TOKENS = Some (Returns [?t])"
    by simp
  have id: "chunk_vector_id sample_env ?p [?t] 0 = py ''a1b2c3d4_myfile''"
  proof -
    have "spec_hash8 sample_env ?p = py ''a1b2c3d4''" by code_simp
    moreover have "spec_stem sample_env ?p = py ''myfile''" by code_simp
    ultimately show ?thesis using t by (simp add: py_def)
  qed
  have b: "os_path_basename sample_env ?p = py ''my file.txt''"
    by (simp add: sample_env_def posix_basename_def py_def)
  have nb: "strip ?t \<noteq> []" by (simp add: strip_def isspace_def py_def)
  have n: "count_tokens sample_env ?t = 11" by (simp add: sample_count_tokens py_def)
  have g: "get_embedding sample_env ?t (fresh_upload\<lparr>vectors := [], successful_chunks := 0\<rparr>) =
      (Returns (Some [0]), fresh_upload\<lparr>embed_calls := Suc 0, trace := [EmbedRequest ?t]\<rparr>)"
    by (simp add: get_embedding_def n attempts_list embeddings_request_def sample_create
        fresh_upload_def)
  have pv: "push_vector sample_env ?p [?t] 0 ?t [0] (fresh_upload\<lparr>embed_calls := Suc 0, trace := [EmbedRequest ?t]\<rparr>) =
     \<lparr>embed_calls = Suc 0, upsert_calls = 0, trace = [EmbedRequest ?t],
      vectors = [\<lparr>vector_id = py ''a1b2c3d4_myfile'', vector_values = [0],
                            meta_source = py ''my file.txt'', meta_text = py ''hello world'',
                            meta_chunk = None\<rparr>], successful_chunks = Suc 0\<rparr>"
    by (simp add: push_vector_def id b BATCH_SIZE_def fresh_upload_def) (simp add: py_def)
  have sk: "\<not> (count_tokens sample_env ?t = 0 \<or> count_tokens sample_env ?t > 8190)"
    by (simp add: n)
  have u: "upload_chunks sample_env ?p [?t] [(0, ?t)]
      (fresh_upload\<lparr>vectors := [], successful_chunks := 0\<rparr>) =
     (Returns (), \<lparr>embed_calls = Suc 0, upsert_calls = 0, trace = [EmbedRequest ?t],
      vectors = [\<lparr>vector_id = py ''a1b2c3d4_myfile'', vector_values = [0],
                            meta_source = py ''my file.txt'', meta_text = py ''hello world'',
                            meta_chunk = None\<rparr>], successful_chunks = Suc 0\<rparr>)"
    by (simp add: upload_chunks_embed [OF sk g] pv del: upload_chunks.simps(2)) 
  have "upload_text_file sample_env ?p ?t fresh_upload =
     Some (Returns (),
       \<lparr>embed_calls = 1, upsert_calls = 1,
        trace = [EmbedRequest ?t,
                 Upserted [\<lparr>vector_id = py ''a1b2c3d4_myfile'', vector_values = [0],
                            meta_source = py ''my file.txt'', meta_text = py ''hello world'',
                            meta_chunk = None\<rparr>]],
        vectors = [], successful_chunks = 1\<rparr>)"
    by (simp add: upload_text_file_def nb c u upsert_vectors_def sample_upsert
        del: upload_chunks.simps)
  then show ?thesis using h c by simp
qed

section \<open>A text of 15000 tokens\<close>

lemma generate_file_id_pos:
  "0 < n \<Longrightarrow> generate_file_id E path n =
     spec_hash8 E path @ py ''_'' @ spec_stem E path @ py ''_chunk_'' @ zero_padded3 (nat n)"
  by (simp add: generate_file_id_def spec_hash8_def spec_stem_def format_03d_pos)

lemma validator_generate_file_id_pos:
  "0 < n \<Longrightarrow> validator_generate_file_id E path n =
     spec_hash8 E path @ py ''_'' @ spec_stem E path @ py ''_chunk_'' @ zero_padded3 (nat n)"
  by (simp add: validator_generate_file_id_def spec_hash8_def spec_stem_def format_03d_pos)

lemma chunk_suffixes:
  "py ''_chunk_'' @ zero_padded3 (nat 1) = py ''_chunk_001''"
  "py ''_chunk_'' @ zero_padded3 (nat 2) = py ''_chunk_002''"
  "py ''_chunk_'' @ zero_padded3 (nat 3) = py ''_chunk_003''"
  by (simp_all add: zero_padded3_def py_def)

lemma three_chunk_ids:
  assumes "length chunks = 3"
  shows "map (chunk_vector_id E path chunks) [0, 1, 2] =
      [spec_hash8 E path @ py ''_'' @ spec_stem E path @ py ''_chunk_001'',
       spec_hash8 E path @ py ''_'' @ spec_stem E path @ py ''_chunk_002'',
       spec_hash8 E path @ py ''_'' @ spec_stem E path @ py ''_chunk_003'']"
    and "ids_to_check E path chunks =
      [spec_hash8 E path @ py ''_'' @ spec_stem E path @ py ''_chunk_001'',
       spec_hash8 E path @ py ''_'' @ spec_stem E path @ py ''_chunk_002'',
       spec_hash8 E path @ py ''_'' @ spec_stem E path @ py ''_chunk_003'']"
proof -
  have u: "[0 ..< 3] = [0, 1, 2]" by (simp add: upt_conv_Cons)
  have n: "(1::int) = int 1" "(2::int) = int 2" "(3::int) = int 3" by simp_all
  show "map (chunk_vector_id E path chunks) [0, 1, 2] =
      [spec_hash8 E path @ py ''_'' @ spec_stem E path @ py ''_chunk_001'',
       spec_hash8 E path @ py ''_'' @ spec_stem E path @ py ''_chunk_002'',
       spec_hash8 E path @ py ''_'' @ spec_stem E path @ py ''_chunk_003'']"
    using assms chunk_suffixes
    by (simp add: chunk_vector_id_def generate_file_id_pos)
  show "ids_to_check E path chunks =
      [spec_hash8 E path @ py ''_'' @ spec_stem E path @ py ''_chunk_001'',
       spec_hash8 E path @ py ''_'' @ spec_stem E path @ py ''_chunk_002'',
       spec_hash8 E path @ py ''_'' @ spec_stem E path @ py ''_chunk_003'']"
    using assms chunk_suffixes
    by (simp add: ids_to_check_def u validator_generate_file_id_pos)
qed

lemma windows_15000:
  assumes "length tokens = 15000"
  shows "chunk_windows tokens 6000 100 =
     [take 6000 tokens, take 6000 (drop 5900 tokens), drop 11800 tokens]"
  using assms
  by (simp add: chunk_windows_def window_starts_step window_starts_done token_window_take_drop)

text \<open>
  C5, as the program has it. A text of exactly 15000 tokens, with \<open>max_tokens = 6000\<close>
  and \<open>overlap_tokens = 100\<close>: the loop slices the three windows \<open>[0,6000)\<close>,
  \<open>[5900,11900)\<close> and \<open>[11800,15000)\<close> and returns, in this order, the trimmed
  decoding of each window whose decoding is not blank. When none is blank these are
  three chunks; the chunks of a list of three get the identifiers with the suffixes
  \<open>_chunk_001\<close>, \<open>_chunk_002\<close>, \<open>_chunk_003\<close> in this order, in the upload and
  in the validation, and every vector \<open>upload_text_file\<close> sends is built for one of
  the chunks returned.
\<close>

theorem text_of_15000_tokens:
  assumes "tokenizer_encode E text = Inr tokens" and "length tokens = 15000"
  shows "chunk_windows tokens 6000 100 =
      [take 6000 tokens, take 6000 (drop 5900 tokens), drop 11800 tokens] \<and>
    chunk_text_by_tokens E text 6000 100 =
      Some (Returns (concat (map
        (\<lambda>w. if strip (tokenizer_decode E w) \<noteq> [] then [strip (tokenizer_decode E w)] else [])
        [take 6000 tokens, take 6000 (drop 5900 tokens), drop 11800 tokens]))) \<and>
    (strip (tokenizer_decode E (take 6000 tokens)) \<noteq> [] \<and>
     strip (tokenizer_decode E (take 6000 (drop 5900 tokens))) \<noteq> [] \<and>
     strip (tokenizer_decode E (drop 11800 tokens)) \<noteq> [] \<longrightarrow>
       chunk_text_by_tokens E text 6000 100 =
         Some (Returns [strip (tokenizer_decode E (take 6000 tokens)),
                        strip (tokenizer_decode E (take 6000 (drop 5900 tokens))),
                        strip (tokenizer_decode E (drop 11800 tokens))])) \<and>
    (\<forall>chunks. length chunks = 3 \<longrightarrow>
       map (chunk_vector_id E file_path chunks) [0, 1, 2] =
         [spec_hash8 E file_path @ py ''_'' @ spec_stem E file_path @ py ''_chunk_001'',
          spec_hash8 E file_path @ py ''_'' @ spec_stem E file_path @ py ''_chunk_002'',
          spec_hash8 E file_path @ py ''_'' @ spec_stem E file_path @ py ''_chunk_003''] \<and>
       ids_to_check E file_path chunks = map (chunk_vector_id E file_path chunks) [0, 1, 2]) \<and>
    (\<forall>chunks. chunk_text_by_tokens E text 6000 100 = Some (Returns chunks) \<and>
       upload_text_file E file_path text st = Some (r, st') \<longrightarrow>
       (\<forall>v \<in> set (sent_vectors (trace st')) - set (sent_vectors (trace st)).
          \<exists>i < length chunks. vector_id v = chunk_vector_id E file_path chunks i \<and>
             meta_text v = take 10000 (chunks ! i)))"
proof -
  have w: "chunk_windows tokens 6000 100 =
      [take 6000 tokens, take 6000 (drop 5900 tokens), drop 11800 tokens]"
    using assms(2) by (rule windows_15000)
  have "chunk_loop E tokens 6000 100 0 [] =
      Some (concat (map
        (\<lambda>w. if strip (tokenizer_decode E w) \<noteq> [] then [strip (tokenizer_decode E w)] else [])
        [take 6000 tokens, take 6000 (drop 5900 tokens), drop 11800 tokens]))"
    using chunk_loop_windows [of 6000 100 E tokens] unfolding w by simp
  then have c: "chunk_text_by_tokens E text 6000 100 =
      Some (Returns (concat (map
        (\<lambda>w. if strip (tokenizer_decode E w) \<noteq> [] then [strip (tokenizer_decode E w)] else [])
        [take 6000 tokens, take 6000 (drop 5900 tokens), drop 11800 tokens])))"
    using assms by (simp add: chunk_text_by_tokens_def)
  have ids: "map (chunk_vector_id E file_path chunks) [0, 1, 2] =
         [spec_hash8 E file_path @ py ''_'' @ spec_stem E file_path @ py ''_chunk_001'',
          spec_hash8 E file_path @ py ''_'' @ spec_stem E file_path @ py ''_chunk_002'',
          spec_hash8 E file_path @ py ''_'' @ spec_stem E file_path @ py ''_chunk_003''] \<and>
       ids_to_check E file_path chunks = map (chunk_vector_id E file_path chunks) [0, 1, 2]"
    if "length chunks = 3" for chunks
    using three_chunk_ids [OF that, of E file_path] by simp
  have up: "\<exists>i < length chunks. vector_id v = chunk_vector_id E file_path chunks i \<and>
             meta_text v = take 10000 (chunks ! i)"
    if "chunk_text_by_tokens E text 6000 100 = Some (Returns chunks)"
      and "upload_text_file E file_path text st = Some (r, st')"
      and "v \<in> set (sent_vectors (trace st')) - set (sent_vectors (trace st))" for chunks v
  proof -
    from upload_text_file_inv [OF that(2), of chunks] that(1,3)
    obtain i where "is_chunk_vector E file_path chunks i v"
      by (auto simp: MAX_TOKENS_def OVERLAP_TOKENS_def)
    then show ?thesis unfolding is_chunk_vector_def by blast
  qed
  show ?thesis
    apply (intro conjI allI impI ballI)
    subgoal by (rule w)
    subgoal by (rule c)
    subgoal using c by simp
    subgoal using ids by blast
    subgoal using ids by blast
    subgoal using up by blast
    done
qed

lemma strip_letters: "strip (replicate (Suc n) 97) = replicate (Suc n) 97"
proof -
  have "\<not> isspace 97" by (simp add: isspace_def)
  then show ?thesis
    by (intro strip_no_space) (simp_all add: last_replicate del: replicate_Suc)
qed

lemma strip_letters_spaces:
  "strip (replicate (Suc n) 97 @ replicate k 32) = replicate (Suc n) 97"
  "strip (replicate k 32 @ replicate (Suc n) 97) = replicate (Suc n) 97"
proof -
  have a: "\<not> isspace 97" and b: "isspace 32" by (simp_all add: isspace_def)
  have d: "dropWhile isspace (replicate (Suc n) 97) = replicate (Suc n) 97"
    using a by simp
  show "strip (replicate (Suc n) 97 @ replicate k 32) = replicate (Suc n) 97"
    using a b d by (simp add: strip_def dropWhile_append del: replicate_Suc) 
  show "strip (replicate k 32 @ replicate (Suc n) 97) = replicate (Suc n) 97"
    using a b d by (simp add: strip_def dropWhile_append del: replicate_Suc)
qed

theorem text_of_15000_tokens_witness:
  "tokenizer_encode sample_env (replicate 15000 97) = Inr (replicate 15000 97) \<and>
   length (replicate 15000 (97::nat)) = 15000 \<and>
   chunk_text_by_tokens sample_env (replicate 15000 97) 6000 100 =
     Some (Returns [replicate 6000 97, replicate 6000 97, replicate 3200 97]) \<and>
   length [replicate 6000 (97::nat), replicate 6000 97, replicate 3200 97] = 3 \<and>
   map (chunk_vector_id sample_env (py ''/d/a.txt'')
          [replicate 6000 97, replicate 6000 97, replicate 3200 97]) [0, 1, 2] =
     [py ''a1b2c3d4_a_chunk_001'', py ''a1b2c3d4_a_chunk_002'', py ''a1b2c3d4_a_chunk_003'']"
proof -
  let ?t = "replicate 15000 (97::nat)" and ?p = "py ''/d/a.txt''"
  let ?cs = "[replicate 6000 (97::nat), replicate 6000 97, replicate 3200 97]"
  have h: "tokenizer_encode sample_env ?t = Inr ?t" "length ?t = 15000"
    by (simp_all add: sample_tokenizer)
  have w: "take 6000 ?t = replicate 6000 97" "take 6000 (drop 5900 ?t) = replicate 6000 97"
    "drop 11800 ?t = replicate 3200 97"
    by simp_all
  have st: "strip (replicate 6000 97) = replicate 6000 97"
    "strip (replicate 3200 97) = replicate 3200 97"
    using strip_letters [of 5999] strip_letters [of 3199] by simp_all
  have ne: "replicate 6000 (97::nat) \<noteq> []" "replicate 3200 (97::nat) \<noteq> []" by simp_all
  note t = text_of_15000_tokens [OF h, where file_path = ?p and st = fresh_upload
      and r = "Returns ()" and st' = fresh_upload, unfolded w sample_tokenizer st]
  from t ne have c: "chunk_text_by_tokens sample_env ?t 6000 100 = Some (Returns ?cs)"
    by (simp add: st)
  have l: "length ?cs = 3" by simp
  have b: "spec_hash8 sample_env ?p @ py ''_'' @ spec_stem sample_env ?p = py ''a1b2c3d4_a''"
  proof -
    have "spec_hash8 sample_env ?p = py ''a1b2c3d4''" by code_simp
    moreover have "spec_stem sample_env ?p = py ''a''" by code_simp
    ultimately show ?thesis by (simp add: py_def)
  qed
  have ap: "py ''a1b2c3d4_a'' @ py ''_chunk_001'' = py ''a1b2c3d4_a_chunk_001''"
    "py ''a1b2c3d4_a'' @ py ''_chunk_002'' = py ''a1b2c3d4_a_chunk_002''"
    "py ''a1b2c3d4_a'' @ py ''_chunk_003'' = py ''a1b2c3d4_a_chunk_003''"
    by (simp_all add: py_def)
  from t l have "map (chunk_vector_id sample_env ?p ?cs) [0, 1, 2] =
      [(spec_hash8 sample_env ?p @ py ''_'' @ spec_stem sample_env ?p) @ py ''_chunk_001'',
       (spec_hash8 sample_env ?p @ py ''_'' @ spec_stem sample_env ?p) @ py ''_chunk_002'',
       (spec_hash8 sample_env ?p @ py ''_'' @ spec_stem sample_env ?p) @ py ''_chunk_003'']"
    by (simp del: list.map)
  then have i: "map (chunk_vector_id sample_env ?p ?cs) [0, 1, 2] =
     [py ''a1b2c3d4_a_chunk_001'', py ''a1b2c3d4_a_chunk_002'', py ''a1b2c3d4_a_chunk_003'']"
    unfolding b ap .
  show ?thesis using h c l i by blast
qed

text \<open>
  C5 as stated fails for a text whose middle window is white space: 5900 letters, 6000
  spaces and 3100 letters are 15000 tokens of the sample tokenizer, the window
  \<open>[5900,11900)\<close> decodes to spaces only and is dropped, and two chunks come back.
\<close>

theorem text_of_15000_tokens_counterexample:
  "tokenizer_encode sample_env (replicate 5900 97 @ replicate 6000 32 @ replicate 3100 97) =
     Inr (replicate 5900 97 @ replicate 6000 32 @ replicate 3100 97) \<and>
   length (replicate 5900 (97::nat) @ replicate 6000 32 @ replicate 3100 97) = 15000 \<and>
   chunk_text_by_tokens sample_env
       (replicate 5900 97 @ replicate 6000 32 @ replicate 3100 97) 6000 100 =
     Some (Returns [replicate 5900 97, replicate 3100 97]) \<and>
   length [replicate 5900 (97::nat), replicate 3100 97] \<noteq> 3"
proof -
  let ?t = "replicate 5900 (97::nat) @ replicate 6000 32 @ replicate 3100 97"
  have l: "length ?t = 15000" by simp
  have w: "chunk_windows ?t 6000 100 =
      [replicate 5900 97 @ replicate 100 32, replicate 6000 32,
       replicate 100 32 @ replicate 3100 97]"
    by (simp add: windows_15000 [OF l])
  have sp: "isspace 32" by (simp add: isspace_def)
  have st: "strip (replicate 5900 97 @ replicate 100 32) = replicate 5900 97"
    "strip (replicate 100 32 @ replicate 3100 97) = replicate 3100 97"
    "strip (replicate 6000 32) = []"
    using strip_letters_spaces(1) [of 5899 100] strip_letters_spaces(2) [of 100 3099] sp
    by simp_all
  have "chunk_loop sample_env ?t 6000 100 0 [] = Some [replicate 5900 97, replicate 3100 97]"
    unfolding chunk_loop_windows [of 6000 100 sample_env ?t, simplified] w
    by (simp add: sample_tokenizer st)
  then have "chunk_text_by_tokens sample_env ?t 6000 100 =
      Some (Returns [replicate 5900 97, replicate 3100 97])"
    by (simp add: chunk_text_by_tokens_def sample_tokenizer)
  then show ?thesis using l by (simp add: sample_tokenizer)
qed

section \<open>Retrying an embedding request\<close>

lemma get_embedding_text_to_embed:
  "get_embedding E text st =
     (case text_to_embed E text of
        Raises e \<Rightarrow> (Raises e, st)
      | Returns t \<Rightarrow>
          (case embedding_attempts E t [0, 1, 2] st of (emb, st) \<Rightarrow> (Returns emb, st)))"
  unfolding get_embedding_def text_to_embed_def attempts_list Let_def
  by (simp del: embedding_attempts.simps split: sum.splits)

lemma attempt_final:
  "\<not> rate_limited E (embeddings_create E (embed_calls st) t) \<or> \<not> attempt < 2 \<Longrightarrow>
   embedding_attempts E t (attempt # rest) st =
     (outcome_value (embeddings_create E (embed_calls st) t),
      st\<lparr>embed_calls := embed_calls st + 1, trace := trace st @ [EmbedRequest t]\<rparr>)"
  by (cases "embeddings_create E (embed_calls st) t")
     (auto simp: embeddings_request_def rate_limit_signal_def max_retries_def)

lemma attempt_retry:
  "rate_limited E (embeddings_create E (embed_calls st) t) \<Longrightarrow> attempt < 2 \<Longrightarrow>
   embedding_attempts E t (attempt # rest) st =
     embedding_attempts E t rest
       (st\<lparr>embed_calls := embed_calls st + 1,
           trace := trace st @ [EmbedRequest t, Sleep (5 * (attempt + 1))]\<rparr>)"
  by (cases "embeddings_create E (embed_calls st) t")
     (auto simp: embeddings_request_def rate_limit_signal_def max_retries_def retry_delay_def
        time_sleep_def Let_def)

lemma get_embedding_three_attempts:
  assumes t: "text_to_embed E text = Returns t"
  shows "get_embedding E text st =
    (let c = embed_calls st;
         o1 = embeddings_create E c t;
         o2 = embeddings_create E (c + 1) t;
         o3 = embeddings_create E (c + 2) t
     in if \<not> rate_limited E o1 then
          (Returns (outcome_value o1),
           st\<lparr>embed_calls := c + 1, trace := trace st @ [EmbedRequest t]\<rparr>)
        else if \<not> rate_limited E o2 then
          (Returns (outcome_value o2),
           st\<lparr>embed_calls := c + 2,
              trace := trace st @ [EmbedRequest t, Sleep 5, EmbedRequest t]\<rparr>)
        else
          (Returns (outcome_value o3),
           st\<lparr>embed_calls := c + 3,
              trace := trace st @
                [EmbedRequest t, Sleep 5, EmbedRequest t, Sleep 10, EmbedRequest t]\<rparr>))"
proof -
  let ?c = "embed_calls st"
  let ?o1 = "embeddings_create E ?c t"
  let ?o2 = "embeddings_create E (?c + 1) t"
  let ?o3 = "embeddings_create E (?c + 2) t"
  let ?st1 = "st\<lparr>embed_calls := ?c + 1, trace := trace st @ [EmbedRequest t, Sleep (5 * (0 + 1))]\<rparr>"
  let ?st2 = "?st1\<lparr>embed_calls := embed_calls ?st1 + 1,
                    trace := trace ?st1 @ [EmbedRequest t, Sleep (5 * (1 + 1))]\<rparr>"
  have g: "get_embedding E text st =
      (case embedding_attempts E t [0, 1, 2] st of (emb, st) \<Rightarrow> (Returns emb, st))"
    by (simp add: get_embedding_text_to_embed t del: embedding_attempts.simps)
  show ?thesis
  proof (cases "rate_limited E ?o1")
    case False
    then show ?thesis
      unfolding g by (simp add: attempt_final Let_def del: embedding_attempts.simps)
  next
    case r1: True
    have a1: "embedding_attempts E t [0, 1, 2] st = embedding_attempts E t [1, 2] ?st1"
      using r1 by (intro attempt_retry) simp_all
    show ?thesis
    proof (cases "rate_limited E ?o2")
      case False
      then have "\<not> rate_limited E (embeddings_create E (embed_calls ?st1) t) \<or> \<not> (1::int) < 2"
        by simp
      from attempt_final [OF this, of "[2]"] show ?thesis
        unfolding g a1 using r1 False by (simp add: Let_def)
    next
      case r2: True
      then have "rate_limited E (embeddings_create E (embed_calls ?st1) t)" by simp
      from attempt_retry [OF this, of 1 "[2]"]
      have a2: "embedding_attempts E t [1, 2] ?st1 = embedding_attempts E t [2] ?st2"
        by simp
      have "\<not> rate_limited E (embeddings_create E (embed_calls ?st2) t) \<or> \<not> (2::int) < 2"
        by simp
      from attempt_final [OF this, of "[]"] show ?thesis
        unfolding g a1 a2 using r1 r2 by (simp add: Let_def add.commute)
    qed
  qed
qed

text \<open>
  C3, as the program has it. \<open>get_embedding\<close> sends at most three requests. An
  attempt that succeeds gives the embedding. An attempt that fails with a
  rate-limit/quota signal in the text of the error (\<open>429\<close>, or \<open>quota\<close> in any case)
  is followed by a wait of 5 seconds times its number (5 after the first, 10 after the
  second) and the next attempt, whatever else the text holds; after the third attempt
  the result is the failure \<open>None\<close>. An attempt that fails without a rate-limit/quota
  signal, with a context-length/validation signal or without one, gives \<open>None\<close> at
  once: no wait, no further request.
\<close>

theorem get_embedding_retry_policy:
  "(text_to_embed E text = Returns t \<and>
     \<not> rate_limited E (embeddings_create E (embed_calls st) t) \<longrightarrow>
      get_embedding E text st =
        (Returns (outcome_value (embeddings_create E (embed_calls st) t)),
         st\<lparr>embed_calls := embed_calls st + 1, trace := trace st @ [EmbedRequest t]\<rparr>)) \<and>
   (text_to_embed E text = Returns t \<and>
     rate_limited E (embeddings_create E (embed_calls st) t) \<and>
     \<not> rate_limited E (embeddings_create E (embed_calls st + 1) t) \<longrightarrow>
      get_embedding E text st =
        (Returns (outcome_value (embeddings_create E (embed_calls st + 1) t)),
         st\<lparr>embed_calls := embed_calls st + 2,
            trace := trace st @ [EmbedRequest t, Sleep 5, EmbedRequest t]\<rparr>)) \<and>
   (text_to_embed E text = Returns t \<and>
     rate_limited E (embeddings_create E (embed_calls st) t) \<and>
     rate_limited E (embeddings_create E (embed_calls st + 1) t) \<longrightarrow>
      get_embedding E text st =
        (Returns (outcome_value (embeddings_create E (embed_calls st + 2) t)),
         st\<lparr>embed_calls := embed_calls st + 3,
            trace := trace st @
              [EmbedRequest t, Sleep 5, EmbedRequest t, Sleep 10, EmbedRequest t]\<rparr>)) \<and>
   (text_to_embed E text = Returns t \<and>
     embeddings_create E (embed_calls st) t = CreateRaised e \<and>
     \<not> rate_limit_signal E e \<and> context_length_signal e \<longrightarrow>
      get_embedding E text st =
        (Returns None,
         st\<lparr>embed_calls := embed_calls st + 1, trace := trace st @ [EmbedRequest t]\<rparr>)) \<and>
   (text_to_embed E text = Returns t \<and>
     embeddings_create E (embed_calls st) t = CreateRaised e \<and>
     \<not> rate_limit_signal E e \<and> \<not> context_length_signal e \<longrightarrow>
      get_embedding E text st =
        (Returns None,
         st\<lparr>embed_calls := embed_calls st + 1, trace := trace st @ [EmbedRequest t]\<rparr>)) \<and>
   (text_to_embed E text = Returns t \<and>
     rate_limited E (embeddings_create E (embed_calls st) t) \<and>
     rate_limited E (embeddings_create E (embed_calls st + 1) t) \<and>
     embeddings_create E (embed_calls st + 2) t = CreateRaised e \<longrightarrow>
      fst (get_embedding E text st) = Returns None) \<and>
   (text_to_embed E text = Raises x \<longrightarrow> get_embedding E text st = (Raises x, st)) \<and>
   length (requests (trace (snd (get_embedding E text st)))) \<le> length (requests (trace st)) + 3"
proof -
  note three = get_embedding_three_attempts [of E "text" _ st]
  have raises: "get_embedding E text st = (Raises y, st)" if "text_to_embed E text = Raises y" for y
    using that by (simp add: get_embedding_text_to_embed)
  have len: "length (requests (trace (snd (get_embedding E text st)))) \<le>
      length (requests (trace st)) + 3"
  proof (cases "text_to_embed E text")
    case (Raises y)
    then show ?thesis by (simp add: raises)
  next
    case (Returns t')
    show ?thesis unfolding three [OF Returns] by (simp add: Let_def)
  qed
  have once: "get_embedding E text st =
        (Returns None,
         st\<lparr>embed_calls := embed_calls st + 1, trace := trace st @ [EmbedRequest t]\<rparr>)"
    if "text_to_embed E text = Returns t"
      and "embeddings_create E (embed_calls st) t = CreateRaised e" and "\<not> rate_limit_signal E e"
    using that by (simp add: three Let_def)
  show ?thesis
    apply (intro conjI impI)
    subgoal by (simp add: three Let_def)
    subgoal by (simp add: three Let_def)
    subgoal by (simp add: three Let_def)
    subgoal using once by blast
    subgoal using once by blast
    subgoal by (simp add: three Let_def)
    subgoal by (rule raises)
    subgoal by (rule len)
    done
qed

lemma rate_limiting_env_simps:
  "tokenizer_encode_ordinary (rate_limiting_env n) text = Inr text"
  "embeddings_create (rate_limiting_env n) k text =
     (if k < n then CreateRaised (py ''Error code: 429 - Rate limit reached'')
      else Created [int k])"
  by (simp_all add: rate_limiting_env_def sample_env_def)

lemma rejecting_env_simps:
  "tokenizer_encode_ordinary rejecting_env text = Inr text"
  "str_lower rejecting_env = ascii_lower"
  "embeddings_create rejecting_env k text =
     CreateRaised (py ''Error code: 400 - maximum context length is 8192 tokens'')"
  by (simp_all add: rejecting_env_def sample_env_def)

lemma rate_limit_message:
  "rate_limit_signal E (py ''Error code: 429 - Rate limit reached'')"
  by (simp add: rate_limit_signal_def py_def)

lemma context_length_message:
  "\<not> rate_limit_signal rejecting_env
       (py ''Error code: 400 - maximum context length is 8192 tokens'')"
  "context_length_signal (py ''Error code: 400 - maximum context length is 8192 tokens'')"
  by (simp_all add: rate_limit_signal_def context_length_signal_def rejecting_env_simps
      ascii_lower_def py_def)

theorem get_embedding_retry_policy_witness:
  "text_to_embed (rate_limiting_env 2) (py ''hello'') = Returns (py ''hello'') \<and>
   rate_limited (rate_limiting_env 2) (embeddings_create (rate_limiting_env 2) 0 (py ''hello'')) \<and>
   rate_limited (rate_limiting_env 2) (embeddings_create (rate_limiting_env 2) 1 (py ''hello'')) \<and>
   get_embedding (rate_limiting_env 2) (py ''hello'') fresh_upload =
     (Returns (Some [2]),
      fresh_upload\<lparr>embed_calls := 3,
        trace := [EmbedRequest (py ''hello''), Sleep 5, EmbedRequest (py ''hello''), Sleep 10,
                  EmbedRequest (py ''hello'')]\<rparr>) \<and>
   get_embedding (rate_limiting_env 3) (py ''hello'') fresh_upload =
     (Returns None,
      fresh_upload\<lparr>embed_calls := 3,
        trace := [EmbedRequest (py ''hello''), Sleep 5, EmbedRequest (py ''hello''), Sleep 10,
                  EmbedRequest (py ''hello'')]\<rparr>) \<and>
   get_embedding (rate_limiting_env 1) (py ''hello'') fresh_upload =
     (Returns (Some [1]),
      fresh_upload\<lparr>embed_calls := 2,
        trace := [EmbedRequest (py ''hello''), Sleep 5, EmbedRequest (py ''hello'')]\<rparr>) \<and>
   text_to_embed rejecting_env (py ''hello'') = Returns (py ''hello'') \<and>
   get_embedding rejecting_env (py ''hello'') fresh_upload =
     (Returns None, fresh_upload\<lparr>embed_calls := 1, trace := [EmbedRequest (py ''hello'')]\<rparr>)"
proof -
  let ?h = "py ''hello''"
  have c0: "embed_calls fresh_upload = 0" "trace fresh_upload = []"
    by (simp_all add: fresh_upload_def)
  have tt: "text_to_embed (rate_limiting_env n) ?h = Returns ?h" for n
    by (simp add: text_to_embed_def count_tokens_def rate_limiting_env_simps py_def)
  have tr: "text_to_embed rejecting_env ?h = Returns ?h"
    by (simp add: text_to_embed_def count_tokens_def rejecting_env_simps py_def)
  have r2: "rate_limited (rate_limiting_env 2) (embeddings_create (rate_limiting_env 2) 0 ?h)"
    "rate_limited (rate_limiting_env 2) (embeddings_create (rate_limiting_env 2) 1 ?h)"
    by (simp_all add: rate_limiting_env_simps rate_limit_message)
  have r3: "rate_limited (rate_limiting_env 3) (embeddings_create (rate_limiting_env 3) 0 ?h)"
    "rate_limited (rate_limiting_env 3) (embeddings_create (rate_limiting_env 3) 1 ?h)"
    by (simp_all add: rate_limiting_env_simps rate_limit_message)
  have r1: "rate_limited (rate_limiting_env 1) (embeddings_create (rate_limiting_env 1) 0 ?h)"
    "\<not> rate_limited (rate_limiting_env 1) (embeddings_create (rate_limiting_env 1) 1 ?h)"
    by (simp_all add: rate_limiting_env_simps rate_limit_message)
  note p = get_embedding_retry_policy
  from p [of "rate_limiting_env 2" ?h ?h fresh_upload] tt r2
  have a: "get_embedding (rate_limiting_env 2) ?h fresh_upload =
     (Returns (Some [2]),
      fresh_upload\<lparr>embed_calls := 3,
        trace := [EmbedRequest ?h, Sleep 5, EmbedRequest ?h, Sleep 10, EmbedRequest ?h]\<rparr>)"
    by (simp add: c0 rate_limiting_env_simps)
  from p [of "rate_limiting_env 3" ?h ?h fresh_upload] tt r3
  have b: "get_embedding (rate_limiting_env 3) ?h fresh_upload =
     (Returns None,
      fresh_upload\<lparr>embed_calls := 3,
        trace := [EmbedRequest ?h, Sleep 5, EmbedRequest ?h, Sleep 10, EmbedRequest ?h]\<rparr>)"
    by (simp add: c0 rate_limiting_env_simps)
  from p [of "rate_limiting_env 1" ?h ?h fresh_upload] tt r1
  have c: "get_embedding (rate_limiting_env 1) ?h fresh_upload =
     (Returns (Some [1]),
      fresh_upload\<lparr>embed_calls := 2,
        trace := [EmbedRequest ?h, Sleep 5, EmbedRequest ?h]\<rparr>)"
    by (simp add: c0 rate_limiting_env_simps)
  from p [of rejecting_env ?h ?h fresh_upload
      "py ''Error code: 400 - maximum context length is 8192 tokens''"] tr context_length_message
  have d: "get_embedding rejecting_env ?h fresh_upload =
     (Returns None, fresh_upload\<lparr>embed_calls := 1, trace := [EmbedRequest ?h]\<rparr>)"
    by (simp add: c0 rejecting_env_simps)
  show ?thesis using tt tr r2 a b c d by blast
qed

section \<open>A context-length error that is retried\<close>

lemma context_length_429_env_simps:
  "tokenizer_encode_ordinary context_length_429_env text = Inr text"
  "embeddings_create context_length_429_env k text = CreateRaised context_length_message"
  by (simp_all add: context_length_429_env_def sample_env_def)

text \<open>
  C3 as stated fails for a context-length error whose text carries the rate-limit
  signal: the service rejects each call with a 400 error that says
  \<open>maximum context length\<close> and \<open>requested 8429 tokens\<close>; \<open>429\<close> occurs in the
  text, the program tests for it first, and \<open>get_embedding\<close> makes all three
  attempts, waiting 5 and 10 seconds, before it returns \<open>None\<close>.
\<close>

theorem context_length_error_retried_counterexample:
  "context_length_signal context_length_message \<and>
   str_in (py ''maximum context length'') context_length_message \<and>
   embeddings_create context_length_429_env 0 (py ''hello'') =
     CreateRaised context_length_message \<and>
   embeddings_create context_length_429_env 1 (py ''hello'') =
     CreateRaised context_length_message \<and>
   embeddings_create context_length_429_env 2 (py ''hello'') =
     CreateRaised context_length_message \<and>
   get_embedding context_length_429_env (py ''hello'') fresh_upload =
     (Returns None,
      fresh_upload\<lparr>embed_calls := 3,
        trace := [EmbedRequest (py ''hello''), Sleep 5, EmbedRequest (py ''hello''), Sleep 10,
                  EmbedRequest (py ''hello'')]\<rparr>)"
proof -
  have m: "str_in (py ''maximum context length'') context_length_message"
    by (simp add: context_length_message_def py_def)
  then have c: "context_length_signal context_length_message"
    by (simp add: context_length_signal_def)
  have "str_in (py ''429'') context_length_message"
    by (simp add: context_length_message_def py_def)
  then have r: "rate_limit_signal context_length_429_env context_length_message"
    by (simp add: rate_limit_signal_def)
  have t: "text_to_embed context_length_429_env (py ''hello'') = Returns (py ''hello'')"
    by (simp add: text_to_embed_def count_tokens_def context_length_429_env_simps py_def)
  have "get_embedding context_length_429_env (py ''hello'') fresh_upload =
     (Returns None,
      fresh_upload\<lparr>embed_calls := 3,
        trace := [EmbedRequest (py ''hello''), Sleep 5, EmbedRequest (py ''hello''), Sleep 10,
                  EmbedRequest (py ''hello'')]\<rparr>)"
    unfolding get_embedding_three_attempts [OF t]
    by (simp add: Let_def context_length_429_env_simps(2) r fresh_upload_def)
  then show ?thesis using c m by (simp add: context_length_429_env_simps(2))
qed

section \<open>Chunks of more than 8190 tokens\<close>

lemma get_embedding_requests:
  assumes "text_to_embed E text = Returns t"
  shows "set (requests (trace (snd (get_embedding E text st)))) \<subseteq>
         set (requests (trace st)) \<union> {t}"
proof -
  obtain emb st1 where e: "embedding_attempts E t [0, 1, 2] st = (emb, st1)"
    by (cases "embedding_attempts E t [0, 1, 2] st")
  then have "snd (get_embedding E text st) = st1"
    using assms by (simp add: get_embedding_text_to_embed del: embedding_attempts.simps)
  then show ?thesis using embedding_attempts_frame [OF e] by simp
qed








section \<open>Validation\<close>

lemma count_found_append [simp]: "count_found (a @ b) = count_found a + count_found b"
  by (induction a rule: count_found.induct) simp_all

lemma count_not_found_append [simp]:
  "count_not_found (a @ b) = count_not_found a + count_not_found b"
  by (induction a rule: count_not_found.induct) simp_all

lemma validate_file_blank:
  "strip full_text = [] \<Longrightarrow>
   validate_file E file_path full_text st =
     Some (Returns (st\<lparr>printed := printed st @ [NoText (os_path_basename E file_path)]\<rparr>))"
  by (simp add: validate_file_def)

lemma validate_file_raises:
  "strip full_text \<noteq> [] \<Longrightarrow> tokenizer_encode E full_text = Inl e \<Longrightarrow>
   validate_file E file_path full_text st = Some (Raises e)"
  by (simp add: validate_file_def chunk_text_by_tokens_def)

lemma validate_file_fetch:
  assumes "strip full_text \<noteq> []"
    and "chunk_text_by_tokens E full_text 6000 100 = Some (Returns chunks)"
  shows "validate_file E file_path full_text st =
     Some (Returns
       (case index_fetch E (fetch_calls st) (ids_to_check E file_path chunks) of
          Fetched found \<Rightarrow>
            if found \<noteq> [] then
              st\<lparr>fetch_calls := fetch_calls st + 1, found_count := found_count st + 1,
                 printed := printed st @ [Found (os_path_basename E file_path)]\<rparr>
            else
              st\<lparr>fetch_calls := fetch_calls st + 1, not_found_count := not_found_count st + 1,
                 printed := printed st @ [NotFound (os_path_basename E file_path)]\<rparr>
        | FetchRaised e \<Rightarrow>
            st\<lparr>fetch_calls := fetch_calls st + 1, not_found_count := not_found_count st + 1,
               printed := printed st @ [ErrorFetching e]\<rparr>))"
  using assms by (simp add: validate_file_def Let_def split: fetch_outcome.splits)

lemma chunker_returns:
  assumes "tokenizer_encode E full_text = Inr tokens"
  shows "\<exists>chunks. chunk_text_by_tokens E full_text 6000 100 = Some (Returns chunks)"
proof -
  have "chunk_loop E tokens 6000 100 0 [] =
      Some ([] @ concat (map (window_chunk E tokens 6000) (window_starts (length tokens) (6000 - 100) 0)))"
    by (intro chunk_loop_closed) simp
  then show ?thesis using assms by (simp add: chunk_text_by_tokens_def)
qed

lemma validate_file_counts:
  assumes "validate_file E file_path full_text st = Some (Returns st1)"
  shows "found_count st1 + count_found (printed st) =
           found_count st + count_found (printed st1) \<and>
         not_found_count st1 + count_not_found (printed st) =
           not_found_count st + count_not_found (printed st1)"
proof (cases "strip full_text = []")
  case True
  then show ?thesis using assms by (auto simp: validate_file_blank)
next
  case False
  then obtain chunks where c: "chunk_text_by_tokens E full_text 6000 100 = Some (Returns chunks)"
    using assms by (auto simp: validate_file_def split: option.splits result.splits)
  show ?thesis
    using assms unfolding validate_file_fetch [OF False c]
    by (cases "index_fetch E (fetch_calls st) (ids_to_check E file_path chunks)")
       (auto split: if_splits)
qed

lemma validate_files_counts:
  "validate_files E text_files st = Some (Returns st') \<Longrightarrow>
   found_count st' + count_found (printed st) = found_count st + count_found (printed st') \<and>
   not_found_count st' + count_not_found (printed st) =
     not_found_count st + count_not_found (printed st')"
proof (induction text_files arbitrary: st)
  case Nil
  then show ?case by simp
next
  case (Cons f text_files)
  obtain file_path full_text where f: "f = (file_path, full_text)" by (cases f)
  from Cons.prems obtain st1 where
    v: "validate_file E file_path full_text st = Some (Returns st1)"
    and r: "validate_files E text_files st1 = Some (Returns st')"
    unfolding f by (auto split: option.splits result.splits)
  from validate_file_counts [OF v] Cons.IH [OF r] show ?case by linarith
qed

lemma validate_files_raises:
  "validate_files E text_files st = Some (Raises x) \<Longrightarrow>
   \<exists>(file_path, full_text) \<in> set text_files. tokenizer_encode E full_text = Inl x"
proof (induction text_files arbitrary: st)
  case Nil
  then show ?case by simp
next
  case (Cons f text_files)
  obtain file_path full_text where f: "f = (file_path, full_text)" by (cases f)
  show ?case
  proof (cases "validate_file E file_path full_text st")
    case None
    then show ?thesis using Cons.prems unfolding f by simp
  next
    case (Some res)
    show ?thesis
    proof (cases res)
      case (Returns st1)
      then have "validate_files E text_files st1 = Some (Raises x)"
        using Cons.prems Some unfolding f by simp
      from Cons.IH [OF this] show ?thesis by auto
    next
      case (Raises y)
      then have xy: "y = x" using Cons.prems Some unfolding f by simp
      have "tokenizer_encode E full_text = Inl x"
      proof (cases "tokenizer_encode E full_text")
        case (Inl z)
        then show ?thesis
          using Some Raises xy
          by (auto simp: validate_file_def chunk_text_by_tokens_def split: if_splits)
      next
        case (Inr tokens)
        from chunker_returns [OF this] obtain chunks
          where "chunk_text_by_tokens E full_text 6000 100 = Some (Returns chunks)" ..
        then show ?thesis
          using Some Raises by (auto simp: validate_file_def Let_def split: if_splits)
      qed
      then show ?thesis unfolding f by simp
    qed
  qed
qed

lemma validate_files_returns_some:
  "\<exists>res. validate_files E text_files st = Some res"
proof (induction text_files arbitrary: st)
  case Nil
  then show ?case by simp
next
  case (Cons f text_files)
  obtain file_path full_text where f: "f = (file_path, full_text)" by (cases f)
  have "\<exists>res. validate_file E file_path full_text st = Some res"
  proof (cases "tokenizer_encode E full_text")
    case (Inl z)
    then show ?thesis
      by (cases "strip full_text = []") (simp_all add: validate_file_blank validate_file_raises)
  next
    case (Inr tokens)
    from chunker_returns [OF this] obtain chunks
      where c: "chunk_text_by_tokens E full_text 6000 100 = Some (Returns chunks)" ..
    show ?thesis
      by (cases "strip full_text = []") (simp_all add: validate_file_blank validate_file_fetch [OF _ c])
  qed
  then obtain res where r: "validate_file E file_path full_text st = Some res" ..
  show ?case
    using r Cons.IH unfolding f by (cases res) simp_all
qed

lemma ids_to_check_upload:
  assumes "chunks \<noteq> []"
  shows "ids_to_check E file_path chunks =
         map (chunk_vector_id E file_path chunks) [0 ..< length chunks]"
proof (cases "length chunks > 1")
  case True
  then show ?thesis
    by (simp add: ids_to_check_def chunk_vector_id_def validator_generate_file_id_def
        generate_file_id_def)
next
  case False
  then have "length chunks = 1" using assms by (cases chunks) simp_all
  then show ?thesis
    by (simp add: ids_to_check_def chunk_vector_id_def validator_generate_file_id_def
        generate_file_id_def)
qed

lemma partial_index_env_simps:
  "tokenizer_encode partial_index_env text = Inr text"
  "tokenizer_decode partial_index_env tokens = tokens"
  "os_path_basename partial_index_env = posix_basename"
  "index_fetch partial_index_env k ids =
     Fetched (filter (\<lambda>i. i = py ''a1b2c3d4_a_chunk_002'') ids)"
  by (simp_all add: partial_index_env_def sample_env_def)

lemma failing_index_env_simps:
  "tokenizer_encode failing_index_env text = Inr text"
  "tokenizer_decode failing_index_env tokens = tokens"
  "os_path_basename failing_index_env = posix_basename"
  "index_fetch failing_index_env k ids =
     (if k = 0 then FetchRaised (py ''Connection reset by peer'') else Fetched ids)"
  by (simp_all add: failing_index_env_def sample_env_def)

lemma three_chunks_of_letters:
  assumes "tokenizer_encode E (replicate 15000 97) = Inr (replicate 15000 97)"
    and "\<And>tokens. tokenizer_decode E tokens = tokens"
  shows "chunk_text_by_tokens E (replicate 15000 97) 6000 100 =
     Some (Returns [replicate 6000 97, replicate 6000 97, replicate 3200 97])"
proof -
  have l: "length (replicate 15000 (97::nat)) = 15000" by simp
  have st: "strip (replicate 6000 97) = replicate 6000 97"
    "strip (replicate 3200 97) = replicate 3200 97"
    using strip_letters [of 5999] strip_letters [of 3199] by simp_all
  have "chunk_loop E (replicate 15000 97) 6000 100 0 [] =
      Some [replicate 6000 97, replicate 6000 97, replicate 3200 97]"
    unfolding chunk_loop_windows [of 6000 100 E "replicate 15000 97", simplified]
      windows_15000 [OF l]
    by (simp add: assms(2) st)
  then show ?thesis using assms(1) by (simp add: chunk_text_by_tokens_def)
qed

section \<open>What a run of the validator returns\<close>

lemma length_fetch_outcomes [simp]: "length (fetch_outcomes E k docs) = length docs"
  by (induction docs arbitrary: k) auto

lemma validate_files_report:
  assumes "\<forall>(file_path, full_text, chunks) \<in> set docs.
      strip full_text \<noteq> [] \<and> chunk_text_by_tokens E full_text 6000 100 = Some (Returns chunks)"
  shows "validate_files E (map (\<lambda>(file_path, full_text, chunks). (file_path, full_text)) docs) st =
    Some (Returns
      \<lparr>found_count = found_count st +
         length (filter (\<lambda>(name, out). fetch_found out) (fetch_outcomes E (fetch_calls st) docs)),
       not_found_count = not_found_count st +
         length (filter (\<lambda>(name, out). \<not> fetch_found out) (fetch_outcomes E (fetch_calls st) docs)),
       fetch_calls = fetch_calls st + length docs,
       printed = printed st @
         map (\<lambda>(name, out). verdict_of name out) (fetch_outcomes E (fetch_calls st) docs)\<rparr>)"
  using assms
proof (induction docs arbitrary: st)
  case Nil
  then show ?case by simp
next
  case (Cons d docs)
  obtain file_path full_text chunks where d: "d = (file_path, full_text, chunks)"
    by (cases d)
  have nb: "strip full_text \<noteq> []"
    and c: "chunk_text_by_tokens E full_text 6000 100 = Some (Returns chunks)"
    and rest: "\<forall>(file_path, full_text, chunks) \<in> set docs.
      strip full_text \<noteq> [] \<and> chunk_text_by_tokens E full_text 6000 100 = Some (Returns chunks)"
    using Cons.prems unfolding d by simp_all
  let ?out = "index_fetch E (fetch_calls st) (ids_to_check E file_path chunks)"
  let ?name = "os_path_basename E file_path"
  define st1 where "st1 =
      \<lparr>found_count = found_count st + (if fetch_found ?out then 1 else 0),
       not_found_count = not_found_count st + (if fetch_found ?out then 0 else 1),
       fetch_calls = fetch_calls st + 1,
       printed = printed st @ [verdict_of ?name ?out]\<rparr>"
  have v: "validate_file E file_path full_text st = Some (Returns st1)"
    unfolding validate_file_fetch [OF nb c] st1_def
    by (cases ?out) simp_all
  have s1: "found_count st1 = found_count st + (if fetch_found ?out then 1 else 0)"
    "not_found_count st1 = not_found_count st + (if fetch_found ?out then 0 else 1)"
    "fetch_calls st1 = Suc (fetch_calls st)"
    "printed st1 = printed st @ [verdict_of ?name ?out]"
    by (simp_all add: st1_def)
  have "validate_files E (map (\<lambda>(file_path, full_text, chunks). (file_path, full_text)) (d # docs)) st =
      validate_files E (map (\<lambda>(file_path, full_text, chunks). (file_path, full_text)) docs) st1"
    unfolding d by (simp add: v)
  also note Cons.IH [OF rest, of st1]
  finally show ?case
    unfolding d s1 by simp
qed

lemma nth_fetch_outcomes:
  "i < length docs \<Longrightarrow> docs ! i = (file_path, full_text, chunks) \<Longrightarrow>
   fetch_outcomes E k docs ! i =
     (os_path_basename E file_path, index_fetch E (k + i) (ids_to_check E file_path chunks))"
proof (induction docs arbitrary: k i)
  case Nil
  then show ?case by simp
next
  case (Cons d docs)
  obtain p t cs where d: "d = (p, t, cs)" by (cases d)
  show ?case
  proof (cases i)
    case 0
    then show ?thesis using Cons.prems d by simp
  next
    case (Suc j)
    then have "j < length docs" "docs ! j = (file_path, full_text, chunks)"
      using Cons.prems by simp_all
    from Cons.IH [OF this, of "Suc k"] show ?thesis
      unfolding d Suc by simp
  qed
qed

text \<open>
  C9. For the documents it validates (files whose text is not blank and is chunked),
  \<open>validate_directory\<close> makes one fetch per document, over the identifiers of all
  its chunks (the ones the upload gives them). It returns the number of documents whose
  fetch gave at least one vector as the found count and the number of the others as the
  not-found count, and prints for each document, in order, that it was found exactly
  when its fetch gave at least one vector. For one document: the found count goes up
  by one when the fetch gives a vector, be it for one chunk only, and the not-found
  count when it gives none.
\<close>

theorem found_iff_fetch_returns_a_vector:
  assumes "\<forall>(file_path, full_text, chunks) \<in> set docs.
      strip full_text \<noteq> [] \<and> chunk_text_by_tokens E full_text 6000 100 = Some (Returns chunks)"
  shows
   "validate_directory E (map (\<lambda>(file_path, full_text, chunks). (file_path, full_text)) docs) =
      Some (Returns
        \<lparr>found_count =
           length (filter (\<lambda>(name, out). fetch_found out) (fetch_outcomes E 0 docs)),
         not_found_count =
           length (filter (\<lambda>(name, out). \<not> fetch_found out) (fetch_outcomes E 0 docs)),
         fetch_calls = length docs,
         printed = map (\<lambda>(name, out). verdict_of name out) (fetch_outcomes E 0 docs)\<rparr>) \<and>
    validate_files E (map (\<lambda>(file_path, full_text, chunks). (file_path, full_text)) docs) st =
      Some (Returns
        \<lparr>found_count = found_count st +
           length (filter (\<lambda>(name, out). fetch_found out) (fetch_outcomes E (fetch_calls st) docs)),
         not_found_count = not_found_count st +
           length (filter (\<lambda>(name, out). \<not> fetch_found out)
             (fetch_outcomes E (fetch_calls st) docs)),
         fetch_calls = fetch_calls st + length docs,
         printed = printed st @
           map (\<lambda>(name, out). verdict_of name out) (fetch_outcomes E (fetch_calls st) docs)\<rparr>) \<and>
    (\<forall>(file_path, full_text, chunks) \<in> set docs. \<forall>found s text_files.
       index_fetch E (fetch_calls s) (ids_to_check E file_path chunks) = Fetched found \<longrightarrow>
         validate_file E file_path full_text s =
           Some (Returns
             (if found \<noteq> [] then
                s\<lparr>fetch_calls := fetch_calls s + 1, found_count := found_count s + 1,
                  printed := printed s @ [Found (os_path_basename E file_path)]\<rparr>
              else
                s\<lparr>fetch_calls := fetch_calls s + 1, not_found_count := not_found_count s + 1,
                  printed := printed s @ [NotFound (os_path_basename E file_path)]\<rparr>)) \<and>
         validate_files E ((file_path, full_text) # text_files) s =
           validate_files E text_files
             (if found \<noteq> [] then
                s\<lparr>fetch_calls := fetch_calls s + 1, found_count := found_count s + 1,
                  printed := printed s @ [Found (os_path_basename E file_path)]\<rparr>
              else
                s\<lparr>fetch_calls := fetch_calls s + 1, not_found_count := not_found_count s + 1,
                  printed := printed s @ [NotFound (os_path_basename E file_path)]\<rparr>)) \<and>
    (\<forall>(file_path, full_text, chunks) \<in> set docs.
       chunks \<noteq> [] \<longrightarrow>
         ids_to_check E file_path chunks =
           map (chunk_vector_id E file_path chunks) [0 ..< length chunks])"
proof -
  note report = validate_files_report [OF assms]
  have dir: "validate_directory E (map (\<lambda>(file_path, full_text, chunks). (file_path, full_text)) docs) =
      Some (Returns
        \<lparr>found_count =
           length (filter (\<lambda>(name, out). fetch_found out) (fetch_outcomes E 0 docs)),
         not_found_count =
           length (filter (\<lambda>(name, out). \<not> fetch_found out) (fetch_outcomes E 0 docs)),
         fetch_calls = length docs,
         printed = map (\<lambda>(name, out). verdict_of name out) (fetch_outcomes E 0 docs)\<rparr>)"
    unfolding validate_directory_def report by simp
  have one: "validate_file E file_path full_text s =
           Some (Returns
             (if found \<noteq> [] then
                s\<lparr>fetch_calls := fetch_calls s + 1, found_count := found_count s + 1,
                  printed := printed s @ [Found (os_path_basename E file_path)]\<rparr>
              else
                s\<lparr>fetch_calls := fetch_calls s + 1, not_found_count := not_found_count s + 1,
                  printed := printed s @ [NotFound (os_path_basename E file_path)]\<rparr>)) \<and>
         validate_files E ((file_path, full_text) # text_files) s =
           validate_files E text_files
             (if found \<noteq> [] then
                s\<lparr>fetch_calls := fetch_calls s + 1, found_count := found_count s + 1,
                  printed := printed s @ [Found (os_path_basename E file_path)]\<rparr>
              else
                s\<lparr>fetch_calls := fetch_calls s + 1, not_found_count := not_found_count s + 1,
                  printed := printed s @ [NotFound (os_path_basename E file_path)]\<rparr>)"
    if "(file_path, full_text, chunks) \<in> set docs"
      and f: "index_fetch E (fetch_calls s) (ids_to_check E file_path chunks) = Fetched found"
    for file_path full_text chunks found s text_files
  proof -
    from that(1) assms have nb: "strip full_text \<noteq> []"
      and c: "chunk_text_by_tokens E full_text 6000 100 = Some (Returns chunks)"
      by auto
    show ?thesis by (simp add: validate_file_fetch [OF nb c] f)
  qed
  have ids: "ids_to_check E file_path chunks =
      map (chunk_vector_id E file_path chunks) [0 ..< length chunks]"
    if "chunks \<noteq> []" for file_path chunks
    using that by (rule ids_to_check_upload)
  show ?thesis
    apply (intro conjI)
    subgoal by (rule dir)
    subgoal by (rule report)
    subgoal using one by blast
    subgoal using ids by blast
    done
qed

theorem found_iff_fetch_returns_a_vector_witness:
  "strip (replicate 15000 97) \<noteq> [] \<and>
   chunk_text_by_tokens partial_index_env (replicate 15000 97) 6000 100 =
     Some (Returns [replicate 6000 97, replicate 6000 97, replicate 3200 97]) \<and>
   strip (py ''hello'') \<noteq> [] \<and>
   chunk_text_by_tokens partial_index_env (py ''hello'') 6000 100 = Some (Returns [py ''hello'']) \<and>
   fetch_outcomes partial_index_env 0
       [(py ''/d/a.txt'', replicate 15000 97,
           [replicate 6000 97, replicate 6000 97, replicate 3200 97]),
        (py ''/d/b.txt'', py ''hello'', [py ''hello''])] =
     [(py ''a.txt'', Fetched [py ''a1b2c3d4_a_chunk_002'']), (py ''b.txt'', Fetched [])] \<and>
   validate_directory partial_index_env
       [(py ''/d/a.txt'', replicate 15000 97), (py ''/d/b.txt'', py ''hello'')] =
     Some (Returns \<lparr>found_count = 1, not_found_count = 1, fetch_calls = 2,
                     printed = [Found (py ''a.txt''), NotFound (py ''b.txt'')]\<rparr>)"
proof -
  let ?E = partial_index_env
  let ?t = "replicate 15000 (97::nat)" and ?p = "py ''/d/a.txt''" and ?q = "py ''/d/b.txt''"
  let ?cs = "[replicate 6000 (97::nat), replicate 6000 97, replicate 3200 97]"
  let ?docs = "[(?p, ?t, ?cs), (?q, py ''hello'', [py ''hello''])]"
  have nb: "strip ?t \<noteq> []" "strip (py ''hello'') \<noteq> []"
    using strip_letters [of 14999] by (simp_all add: strip_def isspace_def py_def)
  have c: "chunk_text_by_tokens ?E ?t 6000 100 = Some (Returns ?cs)"
    by (intro three_chunks_of_letters) (simp_all add: partial_index_env_simps)
  have c': "chunk_text_by_tokens ?E (py ''hello'') 6000 100 = Some (Returns [py ''hello''])"
    by (simp add: chunk_text_by_tokens_def partial_index_env_simps py_def)
  have b: "spec_hash8 ?E ?p @ py ''_'' @ spec_stem ?E ?p = py ''a1b2c3d4_a''"
  proof -
    have "spec_hash8 ?E ?p = py ''a1b2c3d4''" by code_simp
    moreover have "spec_stem ?E ?p = py ''a''" by code_simp
    ultimately show ?thesis by (simp add: py_def)
  qed
  have i: "ids_to_check ?E ?p ?cs =
      [py ''a1b2c3d4_a_chunk_001'', py ''a1b2c3d4_a_chunk_002'', py ''a1b2c3d4_a_chunk_003'']"
    using three_chunk_ids(2) [of ?cs ?E ?p] b by (simp add: py_def)
  have j: "ids_to_check ?E ?q [py ''hello''] = [py ''a1b2c3d4_b'']"
    by code_simp
  have bn: "os_path_basename ?E ?p = py ''a.txt''" "os_path_basename ?E ?q = py ''b.txt''"
    by (simp_all add: partial_index_env_simps posix_basename_def py_def)
  have o: "fetch_outcomes ?E 0 ?docs =
      [(py ''a.txt'', Fetched [py ''a1b2c3d4_a_chunk_002'']), (py ''b.txt'', Fetched [])]"
    by (simp add: i j bn partial_index_env_simps(4)) (simp add: py_def)
  have h: "\<forall>(file_path, full_text, chunks) \<in> set ?docs.
      strip full_text \<noteq> [] \<and> chunk_text_by_tokens ?E full_text 6000 100 = Some (Returns chunks)"
    using nb c c' by simp
  have "validate_directory ?E [(?p, ?t), (?q, py ''hello'')] =
     Some (Returns \<lparr>found_count = 1, not_found_count = 1, fetch_calls = 2,
                     printed = [Found (py ''a.txt''), NotFound (py ''b.txt'')]\<rparr>)"
    using found_iff_fetch_returns_a_vector [OF h, THEN conjunct1] unfolding o by simp
  then show ?thesis using nb c c' o by blast
qed

text \<open>
  C10. Let the fetch for one of the documents \<open>validate_directory\<close> validates raise.
  The run still returns: the exception of the fetch does not leave the loop. The
  document is counted under the not-found count, the line printed for it is the error,
  and every document, those after it too, has its fetch and its line. In the loop, for
  that document: the not-found count goes up by one, the error is printed, and the loop
  goes on with the next file.
\<close>

theorem fetch_error_counts_as_not_found:
  assumes "\<forall>(file_path, full_text, chunks) \<in> set docs.
      strip full_text \<noteq> [] \<and> chunk_text_by_tokens E full_text 6000 100 = Some (Returns chunks)"
    and "i < length docs" and "docs ! i = (file_path, full_text, chunks)"
    and "index_fetch E i (ids_to_check E file_path chunks) = FetchRaised e"
  shows
   "(\<exists>final.
      validate_directory E (map (\<lambda>(file_path, full_text, chunks). (file_path, full_text)) docs) =
        Some (Returns final) \<and>
      printed final ! i = ErrorFetching e \<and>
      length (printed final) = length docs \<and>
      fetch_calls final = length docs \<and>
      found_count final =
        length (filter (\<lambda>(name, out). fetch_found out) (fetch_outcomes E 0 docs)) \<and>
      not_found_count final =
        length (filter (\<lambda>(name, out). \<not> fetch_found out) (fetch_outcomes E 0 docs)) \<and>
      fetch_outcomes E 0 docs ! i = (os_path_basename E file_path, FetchRaised e) \<and>
      0 < not_found_count final) \<and>
    (\<forall>s text_files.
       index_fetch E (fetch_calls s) (ids_to_check E file_path chunks) = FetchRaised e \<longrightarrow>
         validate_file E file_path full_text s =
           Some (Returns
             (s\<lparr>fetch_calls := fetch_calls s + 1, not_found_count := not_found_count s + 1,
                printed := printed s @ [ErrorFetching e]\<rparr>)) \<and>
         validate_files E ((file_path, full_text) # text_files) s =
           validate_files E text_files
             (s\<lparr>fetch_calls := fetch_calls s + 1, not_found_count := not_found_count s + 1,
                printed := printed s @ [ErrorFetching e]\<rparr>))"
proof -
  let ?outs = "fetch_outcomes E 0 docs"
  let ?final = "\<lparr>found_count = length (filter (\<lambda>(name, out). fetch_found out) ?outs),
         not_found_count = length (filter (\<lambda>(name, out). \<not> fetch_found out) ?outs),
         fetch_calls = length docs,
         printed = map (\<lambda>(name, out). verdict_of name out) ?outs\<rparr>"
  have run: "validate_directory E
      (map (\<lambda>(file_path, full_text, chunks). (file_path, full_text)) docs) = Some (Returns ?final)"
    unfolding validate_directory_def validate_files_report [OF assms(1)] by simp
  have nth: "?outs ! i = (os_path_basename E file_path, FetchRaised e)"
    using nth_fetch_outcomes [OF assms(2,3), of E 0] assms(4) by simp
  have line: "printed ?final ! i = ErrorFetching e"
    using assms(2) nth by simp
  have "?outs ! i \<in> set ?outs"
    using assms(2) by (intro nth_mem) simp
  then have "?outs ! i \<in> set (filter (\<lambda>(name, out). \<not> fetch_found out) ?outs)"
    using nth by simp
  then have pos: "0 < not_found_count ?final"
    using length_pos_if_in_set by fastforce
  have mem: "(file_path, full_text, chunks) \<in> set docs"
    using assms(2,3) by (metis nth_mem)
  with assms(1) have nb: "strip full_text \<noteq> []"
    and c: "chunk_text_by_tokens E full_text 6000 100 = Some (Returns chunks)"
    by auto
  have one: "validate_file E file_path full_text s =
           Some (Returns
             (s\<lparr>fetch_calls := fetch_calls s + 1, not_found_count := not_found_count s + 1,
                printed := printed s @ [ErrorFetching e]\<rparr>)) \<and>
         validate_files E ((file_path, full_text) # text_files) s =
           validate_files E text_files
             (s\<lparr>fetch_calls := fetch_calls s + 1, not_found_count := not_found_count s + 1,
                printed := printed s @ [ErrorFetching e]\<rparr>)"
    if "index_fetch E (fetch_calls s) (ids_to_check E file_path chunks) = FetchRaised e"
    for s text_files
    by (simp add: validate_file_fetch [OF nb c] that)
  have "\<exists>final.
      validate_directory E (map (\<lambda>(file_path, full_text, chunks). (file_path, full_text)) docs) =
        Some (Returns final) \<and>
      printed final ! i = ErrorFetching e \<and>
      length (printed final) = length docs \<and>
      fetch_calls final = length docs \<and>
      found_count final = length (filter (\<lambda>(name, out). fetch_found out) ?outs) \<and>
      not_found_count final = length (filter (\<lambda>(name, out). \<not> fetch_found out) ?outs) \<and>
      ?outs ! i = (os_path_basename E file_path, FetchRaised e) \<and>
      0 < not_found_count final"
    apply (rule exI [of _ ?final])
    using run line nth pos by simp
  then show ?thesis using one by blast
qed

theorem fetch_error_counts_as_not_found_witness:
  "strip (py ''hello'') \<noteq> [] \<and>
   chunk_text_by_tokens failing_index_env (py ''hello'') 6000 100 = Some (Returns [py ''hello'']) \<and>
   strip (py ''world'') \<noteq> [] \<and>
   chunk_text_by_tokens failing_index_env (py ''world'') 6000 100 = Some (Returns [py ''world'']) \<and>
   index_fetch failing_index_env 0 (ids_to_check failing_index_env (py ''/d/a.txt'') [py ''hello'']) =
     FetchRaised (py ''Connection reset by peer'') \<and>
   fetch_outcomes failing_index_env 0
       [(py ''/d/a.txt'', py ''hello'', [py ''hello'']),
        (py ''/d/b.txt'', py ''world'', [py ''world''])] =
     [(py ''a.txt'', FetchRaised (py ''Connection reset by peer'')),
      (py ''b.txt'', Fetched [py ''a1b2c3d4_b''])] \<and>
   validate_directory failing_index_env
       [(py ''/d/a.txt'', py ''hello''), (py ''/d/b.txt'', py ''world'')] =
     Some (Returns \<lparr>found_count = 1, not_found_count = 1, fetch_calls = 2,
                     printed = [ErrorFetching (py ''Connection reset by peer''),
                                Found (py ''b.txt'')]\<rparr>)"
proof -
  let ?E = failing_index_env
  let ?p = "py ''/d/a.txt''" and ?q = "py ''/d/b.txt''"
  let ?docs = "[(?p, py ''hello'', [py ''hello'']), (?q, py ''world'', [py ''world''])]"
  let ?e = "py ''Connection reset by peer''"
  have nb: "strip (py ''hello'') \<noteq> []" "strip (py ''world'') \<noteq> []"
    by (simp_all add: strip_def isspace_def py_def)
  have c: "chunk_text_by_tokens ?E (py ''hello'') 6000 100 = Some (Returns [py ''hello''])"
    "chunk_text_by_tokens ?E (py ''world'') 6000 100 = Some (Returns [py ''world''])"
    by (simp_all add: chunk_text_by_tokens_def failing_index_env_simps py_def)
  have f: "index_fetch ?E 0 (ids_to_check ?E ?p [py ''hello'']) = FetchRaised ?e"
    by (simp add: failing_index_env_simps)
  have j: "ids_to_check ?E ?q [py ''world''] = [py ''a1b2c3d4_b'']"
    by code_simp
  have bn: "os_path_basename ?E ?p = py ''a.txt''" "os_path_basename ?E ?q = py ''b.txt''"
    by (simp_all add: failing_index_env_simps posix_basename_def py_def)
  have o: "fetch_outcomes ?E 0 ?docs =
      [(py ''a.txt'', FetchRaised ?e), (py ''b.txt'', Fetched [py ''a1b2c3d4_b''])]"
    by (simp add: j bn failing_index_env_simps(4))
  have h: "\<forall>(file_path, full_text, chunks) \<in> set ?docs.
      strip full_text \<noteq> [] \<and> chunk_text_by_tokens ?E full_text 6000 100 = Some (Returns chunks)"
    using nb c by simp
  have l: "0 < length ?docs" and n: "?docs ! 0 = (?p, py ''hello'', [py ''hello''])"
    by simp_all
  from fetch_error_counts_as_not_found [OF h l n f, THEN conjunct1]
  obtain final where r: "validate_directory ?E
        (map (\<lambda>(file_path, full_text, chunks). (file_path, full_text)) ?docs) = Some (Returns final)"
    and s: "printed final ! 0 = ErrorFetching ?e" "length (printed final) = length ?docs"
      "fetch_calls final = length ?docs"
      "found_count final =
        length (filter (\<lambda>(name, out). fetch_found out) (fetch_outcomes ?E 0 ?docs))"
      "not_found_count final =
        length (filter (\<lambda>(name, out). \<not> fetch_found out) (fetch_outcomes ?E 0 ?docs))"
    by blast
  have cnt: "fetch_calls final = 2" "found_count final = 1" "not_found_count final = 1"
    using s(3-5) unfolding o by simp_all
  have "validate_directory ?E
        (map (\<lambda>(file_path, full_text, chunks). (file_path, full_text)) ?docs) =
     Some (Returns \<lparr>found_count = 0 + length (filter (\<lambda>(name, out). fetch_found out)
                         (fetch_outcomes ?E 0 ?docs)),
         not_found_count = 0 + length (filter (\<lambda>(name, out). \<not> fetch_found out)
                         (fetch_outcomes ?E 0 ?docs)),
         fetch_calls = 0 + length ?docs,
         printed = [] @ map (\<lambda>(name, out). verdict_of name out) (fetch_outcomes ?E 0 ?docs)\<rparr>)"
    using validate_files_report [OF h,
        of "\<lparr>found_count = 0, not_found_count = 0, fetch_calls = 0, printed = []\<rparr>"]
    unfolding validate_directory_def by (simp del: fetch_outcomes.simps)
  then have "printed final =
      map (\<lambda>(name, out). verdict_of name out) (fetch_outcomes ?E 0 ?docs)"
    unfolding r by simp
  then have pr: "printed final = [ErrorFetching ?e, Found (py ''b.txt'')]"
    unfolding o by simp
  have "final = \<lparr>found_count = 1, not_found_count = 1, fetch_calls = 2,
                     printed = [ErrorFetching ?e, Found (py ''b.txt'')]\<rparr>"
    using cnt pr by (cases final) simp
  with r have "validate_directory ?E [(?p, py ''hello''), (?q, py ''world'')] =
     Some (Returns \<lparr>found_count = 1, not_found_count = 1, fetch_calls = 2,
                     printed = [ErrorFetching ?e, Found (py ''b.txt'')]\<rparr>)"
    by simp
  then show ?thesis using nb c f o by blast
qed

end
